theory Spec2Isabelle
  imports Main
begin

section \<open>Python values used by the module\<close>

text \<open>
  Exceptions of the interpreter that the module can let escape. Nothing in
  \<^verbatim>\<open>my_plots.py\<close> catches an exception, so each one ends the call.
\<close>

datatype pyerror = KeyError string | IndexError | TypeError | OverflowError

text \<open>
  A Python \<^verbatim>\<open>float\<close> is an IEEE binary64 value. A finite one is kept as sign,
  integer significand and binary exponent: \<open>Finite s m e\<close> stands for
  \<open>(-1)\<^sup>s * m * 2\<^sup>e\<close>. The significand need not be normalised; two
  representations of the same number behave alike in everything below.
\<close>

datatype pyfloat = Finite bool nat int | Infinity bool | NaN

datatype pynum = PyInt int | PyFloat pyfloat

subsection \<open>Rounding to binary64\<close>

function bit_length :: "nat \<Rightarrow> int" where
  "bit_length n = (if n = 0 then 0 else 1 + bit_length (n div 2))"
  by pat_completeness auto
termination
  by (relation "measure id") auto

declare bit_length.simps [simp del]

text \<open>Division of a natural number by a power of two, ties to the even neighbour.\<close>

definition round_shift :: "nat \<Rightarrow> nat \<Rightarrow> nat" where
  "round_shift m k =
     (let q = m div 2 ^ k; r = 2 * (m mod 2 ^ k)
      in if r < 2 ^ k then q
         else if 2 ^ k < r then q + 1
         else if even q then q else q + 1)"

text \<open>
  \<open>round64 s m e\<close> is the binary64 value nearest to \<open>(-1)\<^sup>s * m * 2\<^sup>e\<close>
  (round-half-to-even, the only rounding mode CPython uses): 53 significant bits,
  least exponent \<open>-1074\<close>, and infinity from \<open>2\<^sup>1\<^sup>0\<^sup>2\<^sup>4\<close> on.
\<close>

definition round64 :: "bool \<Rightarrow> nat \<Rightarrow> int \<Rightarrow> pyfloat" where
  "round64 s m e =
     (let k = max (bit_length m - 53) (- 1074 - e);
          m' = (if 0 < k then round_shift m (nat k) else m);
          e' = (if 0 < k then e + k else e)
      in if 1024 < bit_length m' + e' then Infinity s else Finite s m' e')"

text \<open>\<^verbatim>\<open>float(n)\<close> for an int: correctly rounded, OverflowError beyond the range.\<close>

definition float_of_int :: "int \<Rightarrow> pyerror + pyfloat" where
  "float_of_int n =
     (case round64 (n < 0) (nat \<bar>n\<bar>) 0 of
        Infinity _ \<Rightarrow> Inl OverflowError
      | f \<Rightarrow> Inr f)"

definition to_float :: "pynum \<Rightarrow> pyerror + pyfloat" where
  "to_float x = (case x of PyInt n \<Rightarrow> float_of_int n | PyFloat f \<Rightarrow> Inr f)"

text \<open>The product of two floats.\<close>

fun fmul :: "pyfloat \<Rightarrow> pyfloat \<Rightarrow> pyfloat" where
  "fmul NaN _ = NaN"
| "fmul _ NaN = NaN"
| "fmul (Infinity s) (Infinity t) = Infinity (s \<noteq> t)"
| "fmul (Infinity s) (Finite t m e) = (if m = 0 then NaN else Infinity (s \<noteq> t))"
| "fmul (Finite s m e) (Infinity t) = (if m = 0 then NaN else Infinity (s \<noteq> t))"
| "fmul (Finite s m e) (Finite t n f) = round64 (s \<noteq> t) (m * n) (e + f)"

text \<open>
  The float literals of \<^verbatim>\<open>ps_time\<close>. \<^verbatim>\<open>1e6\<close> and \<^verbatim>\<open>1e3\<close> are exact;
  \<^verbatim>\<open>1e-6\<close> is \<^verbatim>\<open>0x1.0c6f7a0b5ed8dp-20\<close> and \<^verbatim>\<open>1e-3\<close> is
  \<^verbatim>\<open>0x1.0624dd2f1a9fcp-10\<close>, the binary64 values nearest to the decimal ones.
\<close>

definition lit_1e6 :: pyfloat where "lit_1e6 = Finite False 1000000 0"
definition lit_1e3 :: pyfloat where "lit_1e3 = Finite False 1000 0"
definition lit_1e_6 :: pyfloat where "lit_1e_6 = Finite False 0x10C6F7A0B5ED8D (- 72)"
definition lit_1e_3 :: pyfloat where "lit_1e_3 = Finite False 0x10624DD2F1A9FC (- 62)"


subsection \<open>Comparison of numbers\<close>

text \<open>
  Python compares an int with a float, and two floats, by their exact values; a
  comparison with NaN is false. Both sides are scaled to the smaller exponent and
  compared as integers.
\<close>

definition signed_int :: "bool \<Rightarrow> nat \<Rightarrow> int" where
  "signed_int s m = (if s then - int m else int m)"

definition scaled_ge :: "int \<Rightarrow> int \<Rightarrow> int \<Rightarrow> int \<Rightarrow> bool" where
  "scaled_ge a e b f = (b * 2 ^ nat (f - min e f) \<le> a * 2 ^ nat (e - min e f))"

fun float_ge :: "pyfloat \<Rightarrow> pyfloat \<Rightarrow> bool" where
  "float_ge NaN _ = False"
| "float_ge _ NaN = False"
| "float_ge (Infinity s) (Infinity t) = (t \<or> \<not> s)"
| "float_ge (Infinity s) (Finite t n f) = (\<not> s)"
| "float_ge (Finite s m e) (Infinity t) = t"
| "float_ge (Finite s m e) (Finite t n f) = scaled_ge (signed_int s m) e (signed_int t n) f"

definition num_ge :: "pynum \<Rightarrow> pyfloat \<Rightarrow> bool" where
  "num_ge x c =
     (case x of
        PyInt n \<Rightarrow> float_ge (Finite (n < 0) (nat \<bar>n\<bar>) 0) c
      | PyFloat f \<Rightarrow> float_ge f c)"

text \<open>\<^verbatim>\<open>x == 0\<close>: true of the int 0 and of both float zeros.\<close>

definition num_is_zero :: "pynum \<Rightarrow> bool" where
  "num_is_zero x =
     (case x of
        PyInt n \<Rightarrow> n = 0
      | PyFloat (Finite s m e) \<Rightarrow> m = 0
      | PyFloat _ \<Rightarrow> False)"

text \<open>\<^verbatim>\<open>x * c\<close> for a float \<open>c\<close>: an int operand is converted to float first.\<close>

definition num_mul :: "pynum \<Rightarrow> pyfloat \<Rightarrow> pyerror + pynum" where
  "num_mul x c =
     (case to_float x of
        Inl err \<Rightarrow> Inl err
      | Inr f \<Rightarrow> Inr (PyFloat (fmul f c)))"

subsection \<open>Formatting with \<^verbatim>\<open>{:1.0f}\<close>\<close>

text \<open>
  A Python \<^verbatim>\<open>str\<close> is a sequence of code points. Every code point this module
  produces is below 256, so a string is a \<^typ>\<open>char list\<close> with one
  \<^typ>\<open>char\<close> per code point.
\<close>

definition digit_char :: "nat \<Rightarrow> char" where
  "digit_char d = ''0123456789'' ! d"

function digits :: "nat \<Rightarrow> string" where
  "digits n = (if n < 10 then [digit_char n] else digits (n div 10) @ [digit_char (n mod 10)])"
  by pat_completeness auto
termination
  by (relation "measure id") auto

declare digits.simps [simp del]

text \<open>The magnitude \<open>m * 2\<^sup>e\<close> rounded to an integer, ties to even.\<close>

definition nearest_integer :: "nat \<Rightarrow> int \<Rightarrow> nat" where
  "nearest_integer m e = (if 0 \<le> e then m * 2 ^ nat e else round_shift m (nat (- e)))"

definition sign_str :: "bool \<Rightarrow> string" where
  "sign_str s = (if s then ''-'' else [])"

text \<open>
  \<^verbatim>\<open>'{:1.0f}'.format(f)\<close> for a float: fixed point with no digit after the point,
  correctly rounded from the exact binary value (ties to even), the sign kept even when
  the digits are zero. The minimum width 1 never pads.
\<close>

fun float_f0 :: "pyfloat \<Rightarrow> string" where
  "float_f0 NaN = ''nan''"
| "float_f0 (Infinity s) = sign_str s @ ''inf''"
| "float_f0 (Finite s m e) = sign_str s @ digits (nearest_integer m e)"

text \<open>
  \<^verbatim>\<open>('{:1.0f}' + suffix).format(x)\<close>: the presentation type \<^verbatim>\<open>f\<close> converts an int
  to float before formatting.
\<close>

definition format_1_0f :: "string \<Rightarrow> pynum \<Rightarrow> pyerror + string" where
  "format_1_0f suffix x =
     (case to_float x of
        Inl err \<Rightarrow> Inl err
      | Inr f \<Rightarrow> Inr (float_f0 f @ suffix))"

section \<open>The tick formatter \<^verbatim>\<open>ps_time\<close>\<close>

text \<open>
  The unit suffixes as the source file spells them. The microsecond literal holds the
  four code points U+0020, U+00C2, U+00B5 and U+0073 (bytes \<^verbatim>\<open>20 c3 82 c2 b5 73\<close>
  of the UTF-8 source).
\<close>

definition suffix_us :: string where
  "suffix_us = [CHR '' '', CHR 0xC2, CHR 0xB5, CHR ''s'']"

definition suffix_ns :: string where
  "suffix_ns = '' ns''"

definition suffix_ps :: string where
  "suffix_ps = '' ps''"

definition ps_time :: "pynum \<Rightarrow> 'p \<Rightarrow> pyerror + string" where
  "ps_time x_val pos =
     (if num_is_zero x_val then format_1_0f [] x_val
      else if num_ge x_val lit_1e6 then
        (case num_mul x_val lit_1e_6 of
           Inl err \<Rightarrow> Inl err
         | Inr t \<Rightarrow> format_1_0f suffix_us t)
      else if num_ge x_val lit_1e3 then
        (case num_mul x_val lit_1e_3 of
           Inl err \<Rightarrow> Inl err
         | Inr t \<Rightarrow> format_1_0f suffix_ns t)
      else format_1_0f suffix_ps x_val)"

section \<open>The plotting library as the module sees it\<close>

text \<open>
  \<^verbatim>\<open>plot_any\<close> only sequences calls into matplotlib. The library is modelled by
  the effect of each call on the objects involved: an axes object records the draw
  primitives it received and the attributes that were set on it, and the process-wide
  pyplot state holds the rc parameters, the open figures and the image files written.
  Argument validation inside the library (lengths of x and y, writable paths) is not
  part of the model: a call into the library succeeds.
\<close>

datatype pyval = VNone | VNum pynum | VStr string | VList "pynum list"

type_synonym kwdict = "(string \<times> pyval) list"

text \<open>
  One constructor per draw primitive, with the arguments the primitive was called with:
  \<^verbatim>\<open>ax.plot(x, y, color=, label=)\<close>,
  \<^verbatim>\<open>ax.scatter(x, y, c=, label=, s=, marker=)\<close> and
  \<^verbatim>\<open>ax.vlines(x, origin, y, colors=)\<close>.
\<close>

datatype 'v artist =
    AxPlot 'v 'v pyval pyval
  | AxScatter 'v 'v pyval pyval pyval pyval
  | AxVlines 'v pyval 'v pyval

text \<open>The colour and the label a draw primitive was given (no label: \<open>VNone\<close>).\<close>

fun artist_color :: "'v artist \<Rightarrow> pyval" where
  "artist_color (AxPlot x y c l) = c"
| "artist_color (AxScatter x y c l s m) = c"
| "artist_color (AxVlines x origin y c) = c"

fun artist_label :: "'v artist \<Rightarrow> pyval" where
  "artist_label (AxPlot x y c l) = l"
| "artist_label (AxScatter x y c l s m) = l"
| "artist_label (AxVlines x origin y c) = VNone"

fun artist_xy :: "'v artist \<Rightarrow> 'v \<times> 'v" where
  "artist_xy (AxPlot x y c l) = (x, y)"
| "artist_xy (AxScatter x y c l s m) = (x, y)"
| "artist_xy (AxVlines x origin y c) = (x, y)"

text \<open>
  The legend that \<^verbatim>\<open>ax.legend(fontsize=, loc=, bbox_to_anchor=, borderaxespad=,
  frameon=)\<close> builds: its placement arguments and one handle per labelled artist,
  each with the line width last set on it (\<open>None\<close>: never set).
\<close>

record legend =
  leg_fontsize :: nat
  leg_loc :: string
  leg_anchor :: "nat \<times> nat"
  leg_borderaxespad :: pyfloat
  leg_frameon :: bool
  leg_handles :: "(string \<times> pyfloat option) list"

record ('v, 'f) axes =
  artists :: "'v artist list"
  ax_xlim :: "pynum list option"
  ax_ylim :: "pynum list option"
  ax_xlabel :: string
  ax_ylabel :: string
  ax_title :: string
  ax_tick_pad :: "nat option"
  ax_grid :: bool
  ax_legend :: "legend option"
  xinverted :: bool
  yinverted :: bool
  xformatter :: "'f option"
  yformatter :: "'f option"

definition new_axes :: "('v, 'f) axes" where
  "new_axes =
     \<lparr>artists = [], ax_xlim = None, ax_ylim = None, ax_xlabel = [], ax_ylabel = [],
      ax_title = [], ax_tick_pad = None, ax_grid = False, ax_legend = None,
      xinverted = False, yinverted = False, xformatter = None, yformatter = None\<rparr>"

text \<open>
  The pyplot state: \<^verbatim>\<open>mpl.rcParams\<close>, the open figures by number with the axes
  of each (the last one is the current figure), and the files written by
  \<^verbatim>\<open>savefig\<close>: path, \<^verbatim>\<open>bbox_inches\<close> and the picture.
\<close>

record ('v, 'f) pyplot =
  rcParams :: "string \<rightharpoonup> pynum"
  figures :: "(nat \<times> ('v, 'f) axes) list"
  saved :: "(string \<times> string \<times> ('v, 'f) axes) list"

text \<open>A new figure gets the least number above all open ones, from 1.\<close>

definition new_fignum :: "(nat \<times> 'a) list \<Rightarrow> nat" where
  "new_fignum figs = Suc (fold max (map fst figs) 0)"

text \<open>
  \<^verbatim>\<open>fig, ax = plt.subplots(figsize=(24, 18))\<close>: the new figure becomes the
  current one. The result is its number and the new state.
\<close>

definition subplots :: "('v, 'f) pyplot \<Rightarrow> nat \<times> ('v, 'f) pyplot" where
  "subplots plt =
     (let num = new_fignum (figures plt)
      in (num, plt\<lparr>figures := figures plt @ [(num, new_axes)]\<rparr>))"

text \<open>\<^verbatim>\<open>plt.gca()\<close>: the number of the current figure, whose axes it returns.\<close>

definition gca :: "('v, 'f) pyplot \<Rightarrow> nat option" where
  "gca plt = (case rev (figures plt) of [] \<Rightarrow> None | p # _ \<Rightarrow> Some (fst p))"

text \<open>
  The axes object is mutated in place while the figure holds it; the model keeps the
  object in a local and writes it back to its figure.
\<close>

definition put_axes :: "nat \<Rightarrow> ('v, 'f) axes \<Rightarrow> ('v, 'f) pyplot \<Rightarrow> ('v, 'f) pyplot" where
  "put_axes num ax plt =
     plt\<lparr>figures := map (\<lambda>p. if fst p = num then (num, ax) else p) (figures plt)\<rparr>"

text \<open>\<^verbatim>\<open>plt.savefig(savename, bbox_inches='tight')\<close> writes the current figure.\<close>

definition savefig :: "string \<Rightarrow> string \<Rightarrow> ('v, 'f) pyplot \<Rightarrow> ('v, 'f) pyplot" where
  "savefig fname bbox plt =
     (case rev (figures plt) of
        [] \<Rightarrow> plt\<lparr>saved := saved plt @ [(fname, bbox, new_axes)]\<rparr>
      | p # _ \<Rightarrow> plt\<lparr>saved := saved plt @ [(fname, bbox, snd p)]\<rparr>)"

text \<open>\<^verbatim>\<open>plt.close(fig)\<close> removes the figure from the open ones.\<close>

definition close_fig :: "nat \<Rightarrow> ('v, 'f) pyplot \<Rightarrow> ('v, 'f) pyplot" where
  "close_fig num plt = plt\<lparr>figures := filter (\<lambda>p. fst p \<noteq> num) (figures plt)\<rparr>"

section \<open>The render strategies\<close>

text \<open>
  A call \<^verbatim>\<open>f(ax, x, y, color=c, label=l, **kwargs)\<close> binds its keyword arguments
  to the parameters of \<open>f\<close>: a keyword that is not a parameter, or that is given
  twice, is a TypeError, as is a missing \<^verbatim>\<open>color\<close>.
\<close>

definition accepts :: "string list \<Rightarrow> kwdict \<Rightarrow> bool" where
  "accepts params kws =
     (distinct (map fst kws) \<and> list_all (\<lambda>k. List.member params k) (map fst kws)
      \<and> List.member (map fst kws) ''color'')"

definition kwarg :: "kwdict \<Rightarrow> string \<Rightarrow> pyval \<Rightarrow> pyval" where
  "kwarg kws k d = (case map_of kws k of None \<Rightarrow> d | Some v \<Rightarrow> v)"

definition draw :: "'v artist \<Rightarrow> ('v, 'f) axes \<Rightarrow> ('v, 'f) axes" where
  "draw a ax = ax\<lparr>artists := artists ax @ [a]\<rparr>"

definition lines :: "('v, 'f) axes \<Rightarrow> 'v \<Rightarrow> 'v \<Rightarrow> kwdict \<Rightarrow> pyerror + ('v, 'f) axes" where
  "lines ax x y kws =
     (if accepts [''color'', ''label''] kws
      then Inr (draw (AxPlot x y (kwarg kws ''color'' VNone) (kwarg kws ''label'' VNone)) ax)
      else Inl TypeError)"

definition points :: "('v, 'f) axes \<Rightarrow> 'v \<Rightarrow> 'v \<Rightarrow> kwdict \<Rightarrow> pyerror + ('v, 'f) axes" where
  "points ax x y kws =
     (if accepts [''color'', ''label'', ''s'', ''marker''] kws
      then Inr (draw (AxScatter x y (kwarg kws ''color'' VNone) (kwarg kws ''label'' VNone)
                  (kwarg kws ''s'' (VNum (PyInt 300))) (kwarg kws ''marker'' (VStr ''x''))) ax)
      else Inl TypeError)"

definition vlines :: "('v, 'f) axes \<Rightarrow> 'v \<Rightarrow> 'v \<Rightarrow> kwdict \<Rightarrow> pyerror + ('v, 'f) axes" where
  "vlines ax x y kws =
     (if accepts [''color'', ''label'', ''origin''] kws
      then Inr (draw (AxVlines x (kwarg kws ''origin'' (VNum (PyInt 0))) y
                  (kwarg kws ''color'' VNone)) ax)
      else Inl TypeError)"

definition exe_func ::
  "string \<rightharpoonup> (('v, 'f) axes \<Rightarrow> 'v \<Rightarrow> 'v \<Rightarrow> kwdict \<Rightarrow> pyerror + ('v, 'f) axes)" where
  "exe_func = [''lines'' \<mapsto> lines, ''points'' \<mapsto> points, ''vlines'' \<mapsto> vlines]"

definition colorcycle :: "string list" where
  "colorcycle = [''C0'', ''C1'', ''C2'', ''C3'', ''C4'', ''C5'', ''C6'', ''C7'', ''C8'', ''C9'']"

section \<open>The orchestrator \<^verbatim>\<open>plot_any\<close>\<close>

text \<open>
  The parameters of \<^verbatim>\<open>plot_any\<close>. \<open>show_flag\<close> and \<open>save_flag\<close> are the
  parameters \<^verbatim>\<open>show\<close> and \<^verbatim>\<open>save\<close>. \<open>invert\<close> is iterated item by item; a
  \<^verbatim>\<open>str\<close> argument such as \<^verbatim>\<open>'xy'\<close> iterates as its one-character strings.
\<close>

record ('v, 'f) config =
  vals :: "'v list list"
  plotcase :: string
  labels :: "string list option"
  title :: string
  x_label :: string
  y_label :: string
  xlims :: "pynum list option"
  ylims :: "pynum list option"
  show_flag :: bool
  save_flag :: bool
  grid :: bool
  savename :: string
  linewidth :: pynum
  formatfuncx :: "'f option"
  formatfuncy :: "'f option"
  invert :: "string list"
  kwargs :: kwdict

text \<open>The defaults of the signature, for a given \<^verbatim>\<open>vals\<close>.\<close>

definition defaults :: "'v list list \<Rightarrow> ('v, 'f) config" where
  "defaults vs =
     \<lparr>vals = vs, plotcase = ''lines'', labels = None, title = [], x_label = [],
      y_label = [], xlims = None, ylims = None, show_flag = True, save_flag = False,
      grid = False, savename = ''plot.png'', linewidth = PyInt 5, formatfuncx = None,
      formatfuncy = None, invert = [], kwargs = []\<rparr>"

definition fontsize :: int where "fontsize = 30"
definition label_fontsize :: nat where "label_fontsize = 25"
definition label_linewidth :: pyfloat where "label_linewidth = Finite False 5 (- 1)"

text \<open>\<^verbatim>\<open>0.1\<close> is \<^verbatim>\<open>0x1.999999999999ap-4\<close>.\<close>

definition lit_0_1 :: pyfloat where "lit_0_1 = Finite False 0x1999999999999A (- 56)"

text \<open>The outcome of a call: it returns, or an exception escapes; the state in both.\<close>

datatype 's outcome = Returned 's | Raised pyerror 's

text \<open>\<^verbatim>\<open>if xs:\<close> for an optional list: neither \<^verbatim>\<open>None\<close> nor empty.\<close>

definition truthy :: "'a list option \<Rightarrow> bool" where
  "truthy xs = (case xs of None \<Rightarrow> False | Some l \<Rightarrow> l \<noteq> [])"

text \<open>\<^verbatim>\<open>xs[i]\<close> for an index that is not negative.\<close>

definition item :: "'a list \<Rightarrow> nat \<Rightarrow> pyerror + 'a" where
  "item xs i = (if i < length xs then Inr (xs ! i) else Inl IndexError)"

text \<open>
  One pass of the drawing loop. Python evaluates the callee
  \<^verbatim>\<open>exe_func[plotcase]\<close> first, then \<^verbatim>\<open>values[0]\<close>, \<^verbatim>\<open>values[1]\<close>, the
  colour, \<^verbatim>\<open>labels[index]\<close>, and then makes the call. \<open>lbls\<close> is \<open>Some\<close> of
  the labels in the loop of the \<^verbatim>\<open>if labels:\<close> branch and \<open>None\<close> in the loop of
  the \<^verbatim>\<open>else\<close> branch, which passes no label.
\<close>

definition draw_one ::
  "string \<Rightarrow> string list option \<Rightarrow> kwdict \<Rightarrow> nat \<Rightarrow> 'v list \<Rightarrow> ('v, 'f) axes
   \<Rightarrow> pyerror + ('v, 'f) axes" where
  "draw_one pc lbls kws index values ax =
     (case exe_func pc of
        None \<Rightarrow> Inl (KeyError pc)
      | Some f \<Rightarrow>
          (case item values 0 of
             Inl err \<Rightarrow> Inl err
           | Inr x \<Rightarrow>
               (case item values 1 of
                  Inl err \<Rightarrow> Inl err
                | Inr y \<Rightarrow>
                    (let color = colorcycle ! (index mod length colorcycle)
                     in case lbls of
                          None \<Rightarrow> f ax x y ((''color'', VStr color) # kws)
                        | Some ls \<Rightarrow>
                            (case item ls index of
                               Inl err \<Rightarrow> Inl err
                             | Inr l \<Rightarrow>
                                 f ax x y
                                   ((''color'', VStr color) # (''label'', VStr l) # kws))))))"

text \<open>\<^verbatim>\<open>for index, values in enumerate(vals)\<close>, from \<open>index\<close> on.\<close>

fun draw_series ::
  "string \<Rightarrow> string list option \<Rightarrow> kwdict \<Rightarrow> nat \<Rightarrow> 'v list list \<Rightarrow> ('v, 'f) axes
   \<Rightarrow> ('v, 'f) axes outcome" where
  "draw_series pc lbls kws index [] ax = Returned ax"
| "draw_series pc lbls kws index (values # rest) ax =
     (case draw_one pc lbls kws index values ax of
        Inl err \<Rightarrow> Raised err ax
      | Inr ax' \<Rightarrow> draw_series pc lbls kws (Suc index) rest ax')"

text \<open>Limits, axis labels, title, tick padding and grid.\<close>

definition set_axis :: "('v, 'f) config \<Rightarrow> ('v, 'f) axes \<Rightarrow> ('v, 'f) axes" where
  "set_axis cfg ax =
     (let ax1 = (if truthy (xlims cfg) then ax\<lparr>ax_xlim := xlims cfg\<rparr> else ax);
          ax2 = (if truthy (ylims cfg) then ax1\<lparr>ax_ylim := ylims cfg\<rparr> else ax1)
      in ax2\<lparr>ax_xlabel := x_label cfg, ax_ylabel := y_label cfg, ax_title := title cfg,
              ax_tick_pad := Some 7, ax_grid := grid cfg\<rparr>)"

text \<open>
  The legend shows the artists whose label is a string that is not empty and does not
  start with an underscore; the loop over \<^verbatim>\<open>leg.legendHandles\<close> then sets the line
  width of each handle. The model follows the matplotlib releases in which a legend has
  the attribute \<^verbatim>\<open>legendHandles\<close>, those the module was written for.
\<close>

definition legend_labels :: "'v artist list \<Rightarrow> string list" where
  "legend_labels as =
     concat (map (\<lambda>a. case artist_label a of
                         VStr (c # cs) \<Rightarrow> (if c = CHR ''_'' then [] else [c # cs])
                       | _ \<Rightarrow> []) as)"

definition set_legend :: "('v, 'f) axes \<Rightarrow> ('v, 'f) axes" where
  "set_legend ax =
     (let leg = \<lparr>leg_fontsize = label_fontsize, leg_loc = ''upper left'',
                 leg_anchor = (1, 1), leg_borderaxespad = lit_0_1, leg_frameon = False,
                 leg_handles = map (\<lambda>l. (l, None)) (legend_labels (artists ax))\<rparr>
      in ax\<lparr>ax_legend :=
              Some (leg\<lparr>leg_handles :=
                          map (\<lambda>h. (fst h, Some label_linewidth)) (leg_handles leg)\<rparr>)\<rparr>)"

text \<open>
  \<^verbatim>\<open>invert_xaxis()\<close> and \<^verbatim>\<open>invert_yaxis()\<close> reverse the direction of an axis:
  \<open>xinverted\<close> and \<open>yinverted\<close> say whether the axis now runs against the direction
  it had when the limits were set. Any other item of \<^verbatim>\<open>invert\<close> is skipped.
\<close>

definition invert_axis :: "string \<Rightarrow> ('v, 'f) axes \<Rightarrow> ('v, 'f) axes" where
  "invert_axis axis ax =
     (if axis = ''x'' then ax\<lparr>xinverted := \<not> xinverted ax\<rparr>
      else if axis = ''y'' then ax\<lparr>yinverted := \<not> yinverted ax\<rparr>
      else ax)"

definition set_formatters :: "('v, 'f) config \<Rightarrow> ('v, 'f) axes \<Rightarrow> ('v, 'f) axes" where
  "set_formatters cfg ax =
     (let ax1 = (case formatfuncx cfg of None \<Rightarrow> ax | Some g \<Rightarrow> ax\<lparr>xformatter := Some g\<rparr>)
      in case formatfuncy cfg of None \<Rightarrow> ax1 | Some g \<Rightarrow> ax1\<lparr>yformatter := Some g\<rparr>)"

text \<open>
  What follows the drawing loop on the axes, in the order of the source: limits, labels
  and grid; the legend if labels were given; the inversions; the tick formatters.
\<close>

definition decorate :: "('v, 'f) config \<Rightarrow> ('v, 'f) axes \<Rightarrow> ('v, 'f) axes" where
  "decorate cfg ax =
     (let ax1 = set_axis cfg ax;
          ax2 = (if truthy (labels cfg) then set_legend ax1 else ax1);
          ax3 = fold invert_axis (invert cfg) ax2
      in set_formatters cfg ax3)"

text \<open>
  The whole call. The result holds the axes object \<^verbatim>\<open>ax\<close> as the call leaves it
  and the pyplot state; \<^verbatim>\<open>plot_any\<close> itself returns \<^verbatim>\<open>None\<close>. When an exception
  escapes the drawing loop the figure stays open with what was drawn so far.
  \<^verbatim>\<open>plt.gca()\<close> in the inversion loop is \<^verbatim>\<open>ax\<close>: the figure made by
  \<^verbatim>\<open>subplots\<close> is the current one.
\<close>

definition plot_any ::
  "('v, 'f) config \<Rightarrow> ('v, 'f) pyplot \<Rightarrow> (('v, 'f) axes \<times> ('v, 'f) pyplot) outcome" where
  "plot_any cfg plt =
     (let plt1 = plt\<lparr>rcParams := (rcParams plt)
                   (''lines.linewidth'' \<mapsto> linewidth cfg, ''font.size'' \<mapsto> PyInt fontsize)\<rparr>;
          num = fst (subplots plt1);
          plt2 = snd (subplots plt1);
          lbls = (if truthy (labels cfg) then labels cfg else None)
      in case draw_series (plotcase cfg) lbls (kwargs cfg) 0 (vals cfg) new_axes of
           Raised err ax \<Rightarrow> Raised err (ax, put_axes num ax plt2)
         | Returned ax \<Rightarrow>
             (let ax4 = decorate cfg ax;
                  plt3 = put_axes num ax4 plt2;
                  plt4 = (if save_flag cfg then savefig (savename cfg) ''tight'' plt3 else plt3);
                  plt5 = (if show_flag cfg then plt4 else close_fig num plt4)
              in Returned (ax4, plt5)))"

section \<open>Well-formed calls\<close>

text \<open>The keyword parameters of each render strategy, from its \<^verbatim>\<open>def\<close> line.\<close>

definition parameters :: "string \<Rightarrow> string list" where
  "parameters pc =
     (if pc = ''lines'' then [''color'', ''label'']
      else if pc = ''points'' then [''color'', ''label'', ''s'', ''marker'']
      else if pc = ''vlines'' then [''color'', ''label'', ''origin'']
      else [])"

text \<open>
  A call can draw every series when the plot kind is one of the three, every series
  has its x and y entries, and the keywords of each strategy call (\<^verbatim>\<open>color\<close>, also
  \<^verbatim>\<open>label\<close> when labels are given, and the extra options) bind to the parameters of
  the strategy.
\<close>

definition drawable :: "('v, 'f) config \<Rightarrow> bool" where
  "drawable cfg =
     ((plotcase cfg = ''lines'' \<or> plotcase cfg = ''points'' \<or> plotcase cfg = ''vlines'')
      \<and> list_all (\<lambda>values. 2 \<le> length values) (vals cfg)
      \<and> accepts (parameters (plotcase cfg))
            ((''color'', VNone)
             # (if truthy (labels cfg) then [(''label'', VNone)] else []) @ kwargs cfg))"

text \<open>Labels, when given, reach at least as far as the series.\<close>

definition labels_cover :: "('v, 'f) config \<Rightarrow> bool" where
  "labels_cover cfg =
     (case labels cfg of None \<Rightarrow> True | Some ls \<Rightarrow> ls = [] \<or> length (vals cfg) \<le> length ls)"

text \<open>Observations on an outcome: the exception that escaped, and the final state.\<close>

fun raised :: "'s outcome \<Rightarrow> pyerror option" where
  "raised (Returned s) = None"
| "raised (Raised err s) = Some err"

fun final :: "'s outcome \<Rightarrow> 's" where
  "final (Returned s) = s"
| "final (Raised err s) = s"

text \<open>A fresh interpreter: no rc parameter set here, no figure open, nothing saved.\<close>

definition fresh :: "('v, 'f) pyplot" where
  "fresh = \<lparr>rcParams = Map.empty, figures = [], saved = []\<rparr>"

section \<open>Example calls\<close>

text \<open>Eleven series, one more than the palette has colours.\<close>

definition eleven_series :: "int list list list" where
  "eleven_series = map (\<lambda>k. [[0, 1], [k, k + 1]]) [0, 1, 2, 3, 4, 5, 6, 7, 8, 9, 10]"

text \<open>The two shapes of \<^verbatim>\<open>vals\<close> in the docstring: one series, and two.\<close>

definition one_series :: "int list list list" where
  "one_series = [[[1, 2, 3], [1, 2, 3]]]"

definition two_series :: "int list list list" where
  "two_series = [[[1, 2, 3], [1, 2, 3]], [[1, 2, 3], [3, 2, 1]]]"

text \<open>Calls with labels on one series, as vertical lines and as lines.\<close>

definition vlines_labelled_call :: "(int list, unit) config" where
  "vlines_labelled_call = (defaults one_series)\<lparr>plotcase := ''vlines'', labels := Some [''a'']\<rparr>"

definition lines_labelled_call :: "(int list, unit) config" where
  "lines_labelled_call = (defaults one_series)\<lparr>labels := Some [''a'']\<rparr>"

text \<open>Two series with three labels, and with one.\<close>

definition surplus_labels_call :: "(int list, unit) config" where
  "surplus_labels_call = (defaults two_series)\<lparr>labels := Some [''a'', ''b'', ''c'']\<rparr>"

definition short_labels_call :: "(int list, unit) config" where
  "short_labels_call = (defaults two_series)\<lparr>labels := Some [''a'']\<rparr>"

text \<open>A plot kind that \<^verbatim>\<open>exe_func\<close> does not have, with two series and with none.\<close>

definition unknown_kind_call :: "(int list, unit) config" where
  "unknown_kind_call = (defaults two_series)\<lparr>plotcase := ''bars''\<rparr>"

definition unknown_kind_empty_call :: "(int list, unit) config" where
  "unknown_kind_empty_call = (defaults [])\<lparr>plotcase := ''bars''\<rparr>"

text \<open>
  No series, an unknown plot kind and a label, with a title, an x label, the grid and
  the x axis inverted.
\<close>

definition empty_styled_call :: "(int list, unit) config" where
  "empty_styled_call =
     (defaults [])\<lparr>plotcase := ''pie'', labels := Some [''a''], title := ''empty'',
                   x_label := ''t'', grid := True, invert := [''x'']\<rparr>"

text \<open>\<^verbatim>\<open>save=True, show=False\<close> with the default \<^verbatim>\<open>savename\<close>.\<close>

definition save_call :: "(int list, unit) config" where
  "save_call = (defaults two_series)\<lparr>show_flag := False, save_flag := True\<rparr>"

section \<open>Evaluation lemmas\<close>

lemma bit_length_0 [simp]: "bit_length 0 = 0"
  by (simp add: bit_length.simps)

lemma bit_length_1 [simp]: "bit_length (Suc 0) = 1"
  by (simp add: bit_length.simps [of "Suc 0"])

lemma bit_length_numeral [simp]: "bit_length (numeral k) = 1 + bit_length (numeral k div 2)"
  by (subst bit_length.simps) simp

lemma digits_small [simp]: "n < 10 \<Longrightarrow> digits n = [digit_char n]"
  by (simp add: digits.simps)

lemma digits_large [simp]:
  "\<not> n < 10 \<Longrightarrow> digits n = digits (n div 10) @ [digit_char (n mod 10)]"
  by (subst digits.simps) simp

lemmas ps_time_eval =
  ps_time_def num_is_zero_def num_ge_def num_mul_def format_1_0f_def to_float_def
  float_of_int_def round64_def round_shift_def nearest_integer_def sign_str_def
  lit_1e6_def lit_1e3_def lit_1e_6_def lit_1e_3_def scaled_ge_def signed_int_def
  digit_char_def suffix_us_def suffix_ns_def suffix_ps_def Let_def

section \<open>The tick formatter: results\<close>

text \<open>
  Claim C1. For every numeric input, \<^verbatim>\<open>ps_time\<close> takes the first matching rule:
  exactly 0 gives \<^verbatim>\<open>"0"\<close>; from 1,000,000 on the value times 1e-6 as an integer
  with the suffix space, micro sign, s; from 1,000 on the value times 1e-3 with
  \<^verbatim>\<open>" ns"\<close>; otherwise the value with \<^verbatim>\<open>" ps"\<close>.

  The code takes the second rule at 1,000,000 and scales and rounds as stated, but the
  suffix it appends is not the stated one: the literal in the source file has the
  code point U+00C2 in front of the micro sign U+00B5. The theorem evaluates the
  function there: the result is the five code points \<open>1\<close>, space, U+00C2, U+00B5,
  \<open>s\<close>, and not the four of the stated string.
\<close>

theorem ps_time_microsecond_suffix:
  "ps_time (PyInt 1000000) pos = Inr [CHR ''1'', CHR '' '', CHR 0xC2, CHR 0xB5, CHR ''s'']
   \<and> ps_time (PyInt 1000000) pos \<noteq> Inr [CHR ''1'', CHR '' '', CHR 0xB5, CHR ''s'']"
  by (simp add: ps_time_eval)

text \<open>
  Claim C2. The examples of the specification: \<^verbatim>\<open>ps_time(0, _) == "0"\<close>,
  \<^verbatim>\<open>ps_time(500, _) == "500 ps"\<close>, \<^verbatim>\<open>ps_time(1500, _) == "2 ns"\<close> and
  \<^verbatim>\<open>ps_time(2_500_000, _)\<close> equal to 2, space, micro sign, s, every number rounded
  to zero decimals.

  The first three hold as stated; 1.5 and 2.5 both round to 2, ties going to the even
  neighbour. The fourth has the rounded number 2 but the suffix of the source literal,
  with U+00C2 before the micro sign, so the result is not the stated string.
\<close>

theorem ps_time_examples:
  "ps_time (PyInt 0) pos = Inr ''0''
   \<and> ps_time (PyInt 500) pos = Inr ''500 ps''
   \<and> ps_time (PyInt 1500) pos = Inr ''2 ns''
   \<and> ps_time (PyInt 2500000) pos = Inr [CHR ''2'', CHR '' '', CHR 0xC2, CHR 0xB5, CHR ''s'']
   \<and> ps_time (PyInt 2500000) pos \<noteq> Inr [CHR ''2'', CHR '' '', CHR 0xB5, CHR ''s'']"
  by (simp add: ps_time_eval)

text \<open>
  Claim C9. The result of \<^verbatim>\<open>ps_time\<close> does not depend on its second argument:
  for every value and every two positions, of any types, the results are equal.
\<close>

theorem ps_time_ignores_pos: "ps_time x_val p1 = ps_time x_val p2"
  by (simp add: ps_time_def)

section \<open>Lemmas about the drawing loop and the pyplot state\<close>

lemma accepts_keys: "map fst kws = map fst kws' \<Longrightarrow> accepts ps kws = accepts ps kws'"
  by (simp add: accepts_def)

lemma length_colorcycle: "length colorcycle = 10"
  by (simp add: colorcycle_def)


lemma kwarg_color [simp]: "kwarg ((''color'', c) # kws) ''color'' d = c"
  by (simp add: kwarg_def)

lemma kwarg_label [simp]: "kwarg ((''color'', c) # (''label'', l) # kws) ''label'' d = l"
  by (simp add: kwarg_def)

lemma artists_draw [simp]: "artists (draw a ax) = artists ax @ [a]"
  by (simp add: draw_def)

lemma exe_func_lines: "exe_func ''lines'' = Some lines"
  by (simp add: exe_func_def)

lemma exe_func_points: "exe_func ''points'' = Some points"
  by (simp add: exe_func_def)

lemma exe_func_vlines: "exe_func ''vlines'' = Some vlines"
  by (simp add: exe_func_def)

lemma parameters_lines: "parameters ''lines'' = [''color'', ''label'']"
  by (simp add: parameters_def)

lemma parameters_points: "parameters ''points'' = [''color'', ''label'', ''s'', ''marker'']"
  by (simp add: parameters_def)

lemma parameters_vlines: "parameters ''vlines'' = [''color'', ''label'', ''origin'']"
  by (simp add: parameters_def)

lemma lines_call:
  "accepts (parameters ''lines'') ((''color'', c) # kws) \<Longrightarrow>
   lines ax x y ((''color'', c) # kws) =
     Inr (draw (AxPlot x y c (kwarg ((''color'', c) # kws) ''label'' VNone)) ax)"
  by (simp add: parameters_lines lines_def)

lemma points_call:
  "accepts (parameters ''points'') ((''color'', c) # kws) \<Longrightarrow>
   points ax x y ((''color'', c) # kws) =
     Inr (draw (AxScatter x y c (kwarg ((''color'', c) # kws) ''label'' VNone)
            (kwarg ((''color'', c) # kws) ''s'' (VNum (PyInt 300)))
            (kwarg ((''color'', c) # kws) ''marker'' (VStr ''x''))) ax)"
  by (simp add: parameters_points points_def)

lemma vlines_call:
  "accepts (parameters ''vlines'') ((''color'', c) # kws) \<Longrightarrow>
   vlines ax x y ((''color'', c) # kws) =
     Inr (draw (AxVlines x (kwarg ((''color'', c) # kws) ''origin'' (VNum (PyInt 0))) y c) ax)"
  by (simp add: parameters_vlines vlines_def)

lemma strategy_call:
  assumes kind: "pc = ''lines'' \<or> pc = ''points'' \<or> pc = ''vlines''"
    and fit: "accepts (parameters pc) ((''color'', c) # kws)"
  shows "\<exists>f a. exe_func pc = Some f \<and> f ax x y ((''color'', c) # kws) = Inr (draw a ax)
           \<and> artist_color a = c \<and> artist_xy a = (x, y)
           \<and> (pc \<noteq> ''vlines'' \<longrightarrow>
                artist_label a = kwarg ((''color'', c) # kws) ''label'' VNone)"
proof -
  consider (l) "pc = ''lines''" | (p) "pc = ''points''" | (v) "pc = ''vlines''"
    using kind by blast
  then show ?thesis
  proof cases
    case l
    with fit have "accepts (parameters ''lines'') ((''color'', c) # kws)" by simp
    then have "lines ax x y ((''color'', c) # kws) =
        Inr (draw (AxPlot x y c (kwarg ((''color'', c) # kws) ''label'' VNone)) ax)"
      by (rule lines_call)
    with l show ?thesis
      by (intro exI [of _ lines] exI [of _ "AxPlot x y c (kwarg ((''color'', c) # kws) ''label'' VNone)"])
         (simp add: exe_func_lines)
  next
    case p
    with fit have "accepts (parameters ''points'') ((''color'', c) # kws)" by simp
    then have "points ax x y ((''color'', c) # kws) =
        Inr (draw (AxScatter x y c (kwarg ((''color'', c) # kws) ''label'' VNone)
            (kwarg ((''color'', c) # kws) ''s'' (VNum (PyInt 300)))
            (kwarg ((''color'', c) # kws) ''marker'' (VStr ''x''))) ax)"
      by (rule points_call)
    with p show ?thesis
      by (intro exI [of _ points]
            exI [of _ "AxScatter x y c (kwarg ((''color'', c) # kws) ''label'' VNone)
            (kwarg ((''color'', c) # kws) ''s'' (VNum (PyInt 300)))
            (kwarg ((''color'', c) # kws) ''marker'' (VStr ''x''))"])
         (simp add: exe_func_points)
  next
    case v
    with fit have "accepts (parameters ''vlines'') ((''color'', c) # kws)" by simp
    then have
      "vlines ax x y ((''color'', c) # kws) =
         Inr (draw (AxVlines x (kwarg ((''color'', c) # kws) ''origin'' (VNum (PyInt 0))) y c) ax)"
      by (rule vlines_call)
    with v show ?thesis
      by (intro exI [of _ vlines]
           exI [of _ "AxVlines x (kwarg ((''color'', c) # kws) ''origin'' (VNum (PyInt 0))) y c"])
         (simp add: exe_func_vlines)
  qed
qed

lemma item_ok: "i < length xs \<Longrightarrow> item xs i = Inr (xs ! i)"
  by (simp add: item_def)

lemma item_fail: "\<not> i < length xs \<Longrightarrow> item xs i = Inl IndexError"
  by (simp add: item_def)

lemma item_xy:
  "2 \<le> length values \<Longrightarrow>
   item values 0 = Inr (values ! 0) \<and> item values 1 = Inr (values ! 1)"
  by (auto simp: item_def)

lemma draw_one_unlabelled:
  assumes kind: "pc = ''lines'' \<or> pc = ''points'' \<or> pc = ''vlines''"
    and fit: "accepts (parameters pc) ((''color'', VNone) # kws)"
    and shape: "2 \<le> length values"
  shows "\<exists>a. draw_one pc None kws index values ax = Inr (draw a ax)
           \<and> artist_color a = VStr (colorcycle ! (index mod 10))
           \<and> artist_xy a = (values ! 0, values ! 1)"
proof -
  let ?c = "VStr (colorcycle ! (index mod 10))"
  have "accepts (parameters pc) ((''color'', ?c) # kws)"
    using fit accepts_keys [of "(''color'', ?c) # kws" "(''color'', VNone) # kws"] by simp
  from strategy_call [OF kind this, of ax "values ! 0" "values ! 1"]
  obtain f a where f: "exe_func pc = Some f"
    and call: "f ax (values ! 0) (values ! 1) ((''color'', ?c) # kws) = Inr (draw a ax)"
    and a: "artist_color a = ?c" "artist_xy a = (values ! 0, values ! 1)"
    by blast
  have "draw_one pc None kws index values ax = Inr (draw a ax)"
    using item_xy [OF shape] f call by (simp add: draw_one_def length_colorcycle)
  with a show ?thesis by blast
qed

lemma draw_one_labelled:
  assumes kind: "pc = ''lines'' \<or> pc = ''points'' \<or> pc = ''vlines''"
    and fit: "accepts (parameters pc) ((''color'', VNone) # (''label'', VNone) # kws)"
    and shape: "2 \<le> length values"
    and lab: "index < length ls"
  shows "\<exists>a. draw_one pc (Some ls) kws index values ax = Inr (draw a ax)
           \<and> artist_color a = VStr (colorcycle ! (index mod 10))
           \<and> artist_xy a = (values ! 0, values ! 1)
           \<and> (pc \<noteq> ''vlines'' \<longrightarrow> artist_label a = VStr (ls ! index))"
proof -
  let ?c = "VStr (colorcycle ! (index mod 10))"
  let ?kws = "(''label'', VStr (ls ! index)) # kws"
  have "accepts (parameters pc) ((''color'', ?c) # ?kws)"
    using fit
      accepts_keys [of "(''color'', ?c) # ?kws" "(''color'', VNone) # (''label'', VNone) # kws"]
    by simp
  from strategy_call [OF kind this, of ax "values ! 0" "values ! 1"]
  obtain f a where f: "exe_func pc = Some f"
    and call: "f ax (values ! 0) (values ! 1) ((''color'', ?c) # ?kws) = Inr (draw a ax)"
    and a: "artist_color a = ?c" "artist_xy a = (values ! 0, values ! 1)"
      "pc \<noteq> ''vlines'' \<longrightarrow> artist_label a = kwarg ((''color'', ?c) # ?kws) ''label'' VNone"
    by blast
  have "draw_one pc (Some ls) kws index values ax = Inr (draw a ax)"
    using item_xy [OF shape] lab f call by (simp add: draw_one_def item_ok length_colorcycle)
  moreover have "pc \<noteq> ''vlines'' \<longrightarrow> artist_label a = VStr (ls ! index)"
    using a(3) by simp
  ultimately show ?thesis using a(1,2) by blast
qed

lemma draw_one_short:
  assumes kind: "pc = ''lines'' \<or> pc = ''points'' \<or> pc = ''vlines''"
    and shape: "2 \<le> length values"
    and lab: "\<not> index < length ls"
  shows "draw_one pc (Some ls) kws index values ax = Inl IndexError"
proof -
  from kind obtain f :: "('a, 'b) axes \<Rightarrow> 'a \<Rightarrow> 'a \<Rightarrow> kwdict \<Rightarrow> pyerror + ('a, 'b) axes"
    where "exe_func pc = Some f"
    using exe_func_lines exe_func_points exe_func_vlines by blast
  then show ?thesis
    using item_xy [OF shape] lab by (simp add: draw_one_def item_fail)
qed

lemma draw_one_ok:
  assumes kind: "pc = ''lines'' \<or> pc = ''points'' \<or> pc = ''vlines''"
    and fit: "accepts (parameters pc)
                ((''color'', VNone) # (case lbls of None \<Rightarrow> [] | Some ls \<Rightarrow> [(''label'', VNone)]) @ kws)"
    and shape: "2 \<le> length values"
    and lab: "case lbls of None \<Rightarrow> True | Some ls \<Rightarrow> index < length ls"
  shows "\<exists>a. draw_one pc lbls kws index values ax = Inr (draw a ax)
           \<and> artist_color a = VStr (colorcycle ! (index mod 10))
           \<and> artist_xy a = (values ! 0, values ! 1)
           \<and> (\<forall>ls. lbls = Some ls \<longrightarrow> pc \<noteq> ''vlines'' \<longrightarrow> artist_label a = VStr (ls ! index))"
proof (cases lbls)
  case None
  with fit have "accepts (parameters pc) ((''color'', VNone) # kws)" by simp
  from draw_one_unlabelled [OF kind this shape, of index ax] None show ?thesis by auto
next
  case (Some ls)
  with fit have f: "accepts (parameters pc) ((''color'', VNone) # (''label'', VNone) # kws)"
    by simp
  from Some lab have "index < length ls" by simp
  from draw_one_labelled [OF kind f shape this, of ax] Some show ?thesis by auto
qed

lemma draw_series_ok:
  assumes kind: "pc = ''lines'' \<or> pc = ''points'' \<or> pc = ''vlines''"
    and fit: "accepts (parameters pc)
                ((''color'', VNone) # (case lbls of None \<Rightarrow> [] | Some ls \<Rightarrow> [(''label'', VNone)]) @ kws)"
  shows "list_all (\<lambda>values. 2 \<le> length values) vs \<Longrightarrow>
         (case lbls of None \<Rightarrow> True | Some ls \<Rightarrow> index + length vs \<le> length ls) \<Longrightarrow>
         \<exists>as. draw_series pc lbls kws index vs ax = Returned (ax\<lparr>artists := artists ax @ as\<rparr>)
           \<and> length as = length vs
           \<and> (\<forall>j<length vs.
                 artist_color (as ! j) = VStr (colorcycle ! ((index + j) mod 10))
                 \<and> artist_xy (as ! j) = (vs ! j ! 0, vs ! j ! 1)
                 \<and> (\<forall>ls. lbls = Some ls \<longrightarrow> pc \<noteq> ''vlines'' \<longrightarrow>
                       artist_label (as ! j) = VStr (ls ! (index + j))))"
proof (induction vs arbitrary: index ax)
  case Nil
  show ?case by (rule exI [of _ "[]"]) simp
next
  case (Cons v vs)
  from Cons.prems(1) have shape: "2 \<le> length v"
    and shapes: "list_all (\<lambda>values. 2 \<le> length values) vs" by simp_all
  from Cons.prems(2) have lab: "case lbls of None \<Rightarrow> True | Some ls \<Rightarrow> index < length ls"
    and cover: "case lbls of None \<Rightarrow> True | Some ls \<Rightarrow> Suc index + length vs \<le> length ls"
    by (simp_all split: option.splits)
  from draw_one_ok [OF kind fit shape lab, of ax]
  obtain a where one: "draw_one pc lbls kws index v ax = Inr (draw a ax)"
    and a: "artist_color a = VStr (colorcycle ! (index mod 10))"
      "artist_xy a = (v ! 0, v ! 1)"
      "\<forall>ls. lbls = Some ls \<longrightarrow> pc \<noteq> ''vlines'' \<longrightarrow> artist_label a = VStr (ls ! index)"
    by blast
  from Cons.IH [OF shapes cover, of "draw a ax"]
  obtain as where rest: "draw_series pc lbls kws (Suc index) vs (draw a ax) =
        Returned ((draw a ax)\<lparr>artists := artists (draw a ax) @ as\<rparr>)"
    and len: "length as = length vs"
    and props: "\<forall>j<length vs.
                 artist_color (as ! j) = VStr (colorcycle ! ((Suc index + j) mod 10))
                 \<and> artist_xy (as ! j) = (vs ! j ! 0, vs ! j ! 1)
                 \<and> (\<forall>ls. lbls = Some ls \<longrightarrow> pc \<noteq> ''vlines'' \<longrightarrow>
                       artist_label (as ! j) = VStr (ls ! (Suc index + j)))"
    by blast
  have run: "draw_series pc lbls kws index (v # vs) ax =
      Returned (ax\<lparr>artists := artists ax @ (a # as)\<rparr>)"
    using one rest by (simp add: draw_def)
  have "\<forall>j<length (v # vs).
          artist_color ((a # as) ! j) = VStr (colorcycle ! ((index + j) mod 10))
          \<and> artist_xy ((a # as) ! j) = ((v # vs) ! j ! 0, (v # vs) ! j ! 1)
          \<and> (\<forall>ls. lbls = Some ls \<longrightarrow> pc \<noteq> ''vlines'' \<longrightarrow>
                artist_label ((a # as) ! j) = VStr (ls ! (index + j)))"
  proof (intro allI impI)
    fix j assume j: "j < length (v # vs)"
    show "artist_color ((a # as) ! j) = VStr (colorcycle ! ((index + j) mod 10))
          \<and> artist_xy ((a # as) ! j) = ((v # vs) ! j ! 0, (v # vs) ! j ! 1)
          \<and> (\<forall>ls. lbls = Some ls \<longrightarrow> pc \<noteq> ''vlines'' \<longrightarrow>
                artist_label ((a # as) ! j) = VStr (ls ! (index + j)))"
    proof (cases j)
      case 0
      with a show ?thesis by simp
    next
      case (Suc k)
      with j have "k < length vs" by simp
      with props Suc show ?thesis by simp
    qed
  qed
  with run len show ?case
    by (intro exI [of _ "a # as"]) simp
qed

lemma fold_max_ge: "(a::nat) \<le> fold max xs a"
  by (induction xs arbitrary: a) (auto intro: order_trans [OF max.cobounded2])

lemma fold_max_mem: "(x::nat) \<in> set xs \<Longrightarrow> x \<le> fold max xs a"
proof (induction xs arbitrary: a)
  case Nil
  then show ?case by simp
next
  case (Cons y ys)
  show ?case
  proof (cases "x = y")
    case True
    have "y \<le> max y a" by simp
    also have "\<dots> \<le> fold max ys (max y a)" by (rule fold_max_ge)
    finally show ?thesis using True by simp
  next
    case False
    with Cons show ?thesis by simp
  qed
qed

lemma new_fignum_fresh: "p \<in> set figs \<Longrightarrow> fst p \<noteq> new_fignum figs"
proof -
  assume "p \<in> set figs"
  then have "fst p \<in> set (map fst figs)" by simp
  then have "fst p \<le> fold max (map fst figs) 0" by (rule fold_max_mem)
  then show ?thesis by (simp add: new_fignum_def)
qed

lemma draw_series_short:
  assumes kind: "pc = ''lines'' \<or> pc = ''points'' \<or> pc = ''vlines''"
    and fit: "accepts (parameters pc) ((''color'', VNone) # (''label'', VNone) # kws)"
  shows "list_all (\<lambda>values. 2 \<le> length values) vs \<Longrightarrow>
         index \<le> length ls \<Longrightarrow> length ls < index + length vs \<Longrightarrow>
         \<exists>as. draw_series pc (Some ls) kws index vs ax =
                 Raised IndexError (ax\<lparr>artists := artists ax @ as\<rparr>)
           \<and> length as = length ls - index"
proof (induction vs arbitrary: index ax)
  case Nil
  then show ?case by simp
next
  case (Cons v vs)
  from Cons.prems(1) have shape: "2 \<le> length v"
    and shapes: "list_all (\<lambda>values. 2 \<le> length values) vs" by simp_all
  show ?case
  proof (cases "index < length ls")
    case True
    from draw_one_labelled [OF kind fit shape True, of ax]
    obtain a where one: "draw_one pc (Some ls) kws index v ax = Inr (draw a ax)" by blast
    from True Cons.prems(3) have "Suc index \<le> length ls" "length ls < Suc index + length vs"
      by simp_all
    from Cons.IH [OF shapes this, of "draw a ax"]
    obtain as where rest: "draw_series pc (Some ls) kws (Suc index) vs (draw a ax) =
          Raised IndexError ((draw a ax)\<lparr>artists := artists (draw a ax) @ as\<rparr>)"
      and len: "length as = length ls - Suc index" by blast
    have "draw_series pc (Some ls) kws index (v # vs) ax =
        Raised IndexError (ax\<lparr>artists := artists ax @ (a # as)\<rparr>)"
      using one rest by (simp add: draw_def)
    moreover have "length (a # as) = length ls - index" using len True by simp
    ultimately show ?thesis by blast
  next
    case False
    from draw_one_short [OF kind shape False, of kws ax]
    have "draw_series pc (Some ls) kws index (v # vs) ax =
        Raised IndexError (ax\<lparr>artists := artists ax @ []\<rparr>)" by simp
    moreover have "length ([] :: 'a artist list) = length ls - index" using False by simp
    ultimately show ?thesis by blast
  qed
qed

lemma artists_set_axis [simp]: "artists (set_axis cfg ax) = artists ax"
  by (simp add: set_axis_def Let_def)

lemma artists_set_legend [simp]: "artists (set_legend ax) = artists ax"
  by (simp add: set_legend_def Let_def)

lemma artists_invert_axis [simp]: "artists (invert_axis axis ax) = artists ax"
  by (simp add: invert_axis_def)

lemma artists_fold_invert [simp]: "artists (fold invert_axis axes ax) = artists ax"
  by (induction axes arbitrary: ax) simp_all

lemma artists_set_formatters [simp]: "artists (set_formatters cfg ax) = artists ax"
  by (simp add: set_formatters_def Let_def split: option.splits)

lemma artists_decorate [simp]: "artists (decorate cfg ax) = artists ax"
  by (simp add: decorate_def Let_def)

lemma put_axes_subplots:
  "figures (put_axes (fst (subplots plt)) ax (snd (subplots plt))) =
     figures plt @ [(new_fignum (figures plt), ax)]"
proof -
  have "map (\<lambda>p. if fst p = new_fignum (figures plt) then (new_fignum (figures plt), ax) else p)
          (figures plt) = figures plt"
    by (rule map_idI) (simp add: new_fignum_fresh)
  then show ?thesis by (simp add: put_axes_def subplots_def Let_def)
qed

lemma close_new_fig:
  "filter (\<lambda>p. fst p \<noteq> new_fignum figs) (figs @ [(new_fignum figs, ax)]) = figs"
  by (simp add: new_fignum_fresh)

lemma plot_any_returned:
  fixes cfg :: "('v, 'f) config" and ax :: "('v, 'f) axes"
  assumes "draw_series (plotcase cfg) (if truthy (labels cfg) then labels cfg else None)
             (kwargs cfg) 0 (vals cfg) new_axes = Returned ax"
  shows "\<exists>s. plot_any cfg plt = Returned (decorate cfg ax, s)
           \<and> figures s = figures plt
                @ (if show_flag cfg then [(new_fignum (figures plt), decorate cfg ax)] else [])
           \<and> saved s = saved plt
                @ (if save_flag cfg then [(savename cfg, ''tight'', decorate cfg ax)] else [])"
proof -
  let ?plt1 = "plt\<lparr>rcParams := (rcParams plt)
                 (''lines.linewidth'' \<mapsto> linewidth cfg, ''font.size'' \<mapsto> PyInt fontsize)\<rparr>"
  let ?plt3 = "put_axes (fst (subplots ?plt1)) (decorate cfg ax) (snd (subplots ?plt1))"
  have figs: "figures ?plt3 = figures plt @ [(new_fignum (figures plt), decorate cfg ax)]"
    using put_axes_subplots [where ax = "decorate cfg ax" and plt = ?plt1] by simp
  have num: "fst (subplots ?plt1) = new_fignum (figures plt)"
    by (simp add: subplots_def Let_def)
  have sav: "saved ?plt3 = saved plt"
    by (simp add: put_axes_def subplots_def Let_def)
  show ?thesis
    using assms figs num sav
    by (simp add: plot_any_def Let_def savefig_def close_fig_def new_fignum_fresh)
qed

lemma plot_any_raised:
  fixes cfg :: "('v, 'f) config" and ax :: "('v, 'f) axes"
  assumes "draw_series (plotcase cfg) (if truthy (labels cfg) then labels cfg else None)
             (kwargs cfg) 0 (vals cfg) new_axes = Raised err ax"
  shows "\<exists>s. plot_any cfg plt = Raised err (ax, s)
           \<and> figures s = figures plt @ [(new_fignum (figures plt), ax)]
           \<and> saved s = saved plt"
proof -
  let ?plt1 = "plt\<lparr>rcParams := (rcParams plt)
                 (''lines.linewidth'' \<mapsto> linewidth cfg, ''font.size'' \<mapsto> PyInt fontsize)\<rparr>"
  let ?plt3 = "put_axes (fst (subplots ?plt1)) ax (snd (subplots ?plt1))"
  have figs: "figures ?plt3 = figures plt @ [(new_fignum (figures plt), ax)]"
    using put_axes_subplots [where ax = ax and plt = ?plt1] by simp
  have sav: "saved ?plt3 = saved plt"
    by (simp add: put_axes_def subplots_def Let_def)
  show ?thesis
    using assms figs sav by (simp add: plot_any_def Let_def)
qed

lemma drawable_loop:
  assumes "drawable cfg"
  shows "plotcase cfg = ''lines'' \<or> plotcase cfg = ''points'' \<or> plotcase cfg = ''vlines''"
    and "accepts (parameters (plotcase cfg))
           ((''color'', VNone)
            # (case (if truthy (labels cfg) then labels cfg else None) of
                 None \<Rightarrow> [] | Some ls \<Rightarrow> [(''label'', VNone)]) @ kwargs cfg)"
    and "list_all (\<lambda>values. 2 \<le> length values) (vals cfg)"
  using assms by (auto simp: drawable_def truthy_def split: option.splits)


lemma exe_func_unknown:
  "pc \<noteq> ''lines'' \<Longrightarrow> pc \<noteq> ''points'' \<Longrightarrow> pc \<noteq> ''vlines'' \<Longrightarrow> exe_func pc = None"
  by (simp add: exe_func_def)

lemma plot_any_valid_run:
  fixes cfg :: "('v, 'f) config"
  assumes "drawable cfg" and "labels_cover cfg"
  shows "\<exists>ax s. plot_any cfg plt = Returned (ax, s)
           \<and> length (artists ax) = length (vals cfg)
           \<and> (\<forall>i<length (vals cfg).
                 artist_xy (artists ax ! i) = (vals cfg ! i ! 0, vals cfg ! i ! 1)
                 \<and> artist_color (artists ax ! i) = VStr (colorcycle ! (i mod 10))
                 \<and> (\<forall>ls. truthy (labels cfg) \<longrightarrow> labels cfg = Some ls \<longrightarrow>
                       plotcase cfg \<noteq> ''vlines'' \<longrightarrow>
                       artist_label (artists ax ! i) = VStr (ls ! i)))
           \<and> figures s = figures plt
                @ (if show_flag cfg then [(new_fignum (figures plt), ax)] else [])
           \<and> saved s = saved plt
                @ (if save_flag cfg then [(savename cfg, ''tight'', ax)] else [])"
proof -
  let ?lbls = "if truthy (labels cfg) then labels cfg else None"
  let ?new = "new_axes :: ('v, 'f) axes"
  have cover: "case ?lbls of None \<Rightarrow> True | Some ls \<Rightarrow> 0 + length (vals cfg) \<le> length ls"
    using assms(2) by (auto simp: labels_cover_def truthy_def split: option.splits)
  from draw_series_ok [OF drawable_loop(1,2) [OF assms(1)] drawable_loop(3) [OF assms(1)] cover,
      of ?new]
  obtain as where run: "draw_series (plotcase cfg) ?lbls (kwargs cfg) 0 (vals cfg) ?new =
        Returned (?new\<lparr>artists := artists ?new @ as\<rparr>)"
    and len: "length as = length (vals cfg)"
    and props: "\<forall>j<length (vals cfg).
                 artist_color (as ! j) = VStr (colorcycle ! ((0 + j) mod 10))
                 \<and> artist_xy (as ! j) = (vals cfg ! j ! 0, vals cfg ! j ! 1)
                 \<and> (\<forall>ls. ?lbls = Some ls \<longrightarrow> plotcase cfg \<noteq> ''vlines'' \<longrightarrow>
                       artist_label (as ! j) = VStr (ls ! (0 + j)))"
    by blast
  let ?ax = "decorate cfg (?new\<lparr>artists := artists ?new @ as\<rparr>)"
  from plot_any_returned [OF run, of plt]
  obtain s where ret: "plot_any cfg plt = Returned (?ax, s)"
    and figs: "figures s = figures plt
                @ (if show_flag cfg then [(new_fignum (figures plt), ?ax)] else [])"
    and sav: "saved s = saved plt
                @ (if save_flag cfg then [(savename cfg, ''tight'', ?ax)] else [])"
    by blast
  have arts: "artists ?ax = as" by (simp add: new_axes_def)
  have each: "\<forall>i<length (vals cfg).
                 artist_xy (artists ?ax ! i) = (vals cfg ! i ! 0, vals cfg ! i ! 1)
                 \<and> artist_color (artists ?ax ! i) = VStr (colorcycle ! (i mod 10))
                 \<and> (\<forall>ls. truthy (labels cfg) \<longrightarrow> labels cfg = Some ls \<longrightarrow>
                       plotcase cfg \<noteq> ''vlines'' \<longrightarrow>
                       artist_label (artists ?ax ! i) = VStr (ls ! i))"
    using props arts by auto
  have count: "length (artists ?ax) = length (vals cfg)" using arts len by simp
  from ret count each figs sav show ?thesis by blast
qed

lemma plot_any_no_series:
  fixes cfg :: "('v, 'f) config"
  assumes "vals cfg = []"
  shows "\<exists>ax s. plot_any cfg plt = Returned (ax, s) \<and> artists ax = []"
proof -
  let ?new = "new_axes :: ('v, 'f) axes"
  have "draw_series (plotcase cfg) (if truthy (labels cfg) then labels cfg else None)
          (kwargs cfg) 0 (vals cfg) ?new = Returned ?new"
    using assms by simp
  from plot_any_returned [OF this, of plt]
  obtain s where "plot_any cfg plt = Returned (decorate cfg ?new, s)" by blast
  moreover have "artists (decorate cfg ?new) = []" by (simp add: new_axes_def)
  ultimately show ?thesis by blast
qed

lemma drawable_two_series:
  "drawable ((defaults two_series :: (int list, unit) config)\<lparr>labels := Some ls\<rparr>)"
  by (simp add: drawable_def defaults_def two_series_def truthy_def parameters_def accepts_def)

lemma set_axis_invert [simp]: "set_axis (cfg\<lparr>invert := i\<rparr>) ax = set_axis cfg ax"
  by (simp add: set_axis_def cong: if_cong)

lemma set_formatters_invert [simp]:
  "set_formatters (cfg\<lparr>invert := i\<rparr>) ax = set_formatters cfg ax"
  by (simp add: set_formatters_def cong: if_cong)

lemma invert_axis_twice: "invert_axis a (invert_axis a ax) = ax"
  by (simp add: invert_axis_def)

lemma decorate_invert_twice:
  "decorate (cfg\<lparr>invert := i @ [a, a]\<rparr>) ax = decorate (cfg\<lparr>invert := i\<rparr>) ax"
  by (simp add: decorate_def Let_def invert_axis_twice cong: if_cong)

lemma xinverted_set_formatters [simp]:
  "set_formatters cfg (ax\<lparr>xinverted := b\<rparr>) = (set_formatters cfg ax)\<lparr>xinverted := b\<rparr>"
  "set_formatters cfg (ax\<lparr>yinverted := b\<rparr>) = (set_formatters cfg ax)\<lparr>yinverted := b\<rparr>"
  "xinverted (set_formatters cfg ax) = xinverted ax"
  "yinverted (set_formatters cfg ax) = yinverted ax"
  by (simp_all add: set_formatters_def Let_def split: option.splits)

lemma decorate_invert_xy:
  "decorate (cfg\<lparr>invert := [''x'', ''y'']\<rparr>) ax =
     (decorate (cfg\<lparr>invert := []\<rparr>) ax)
       \<lparr>xinverted := \<not> xinverted (decorate (cfg\<lparr>invert := []\<rparr>) ax),
        yinverted := \<not> yinverted (decorate (cfg\<lparr>invert := []\<rparr>) ax)\<rparr>"
  by (simp add: decorate_def Let_def invert_axis_def cong: if_cong)

lemma plot_any_invert_twice:
  "plot_any (cfg\<lparr>invert := i @ [a, a]\<rparr>) plt = plot_any (cfg\<lparr>invert := i\<rparr>) plt"
  by (simp add: plot_any_def Let_def decorate_invert_twice cong: if_cong outcome.case_cong)

lemma strategy_frame:
  "exe_func pc = Some f \<Longrightarrow> f ax x y kws = Inr ax' \<Longrightarrow> \<exists>a. ax' = draw a ax"
  by (auto simp: exe_func_def lines_def points_def vlines_def split: if_splits)

lemma draw_one_frame:
  assumes "draw_one pc lbls kws index values ax = Inr ax'"
  shows "\<exists>a. ax' = draw a ax"
  using assms
  by (auto simp: draw_one_def Let_def split: option.splits sum.splits dest: strategy_frame)

lemma draw_series_frame:
  "draw_series pc lbls kws index vs ax = Returned ax' \<Longrightarrow> ax'\<lparr>artists := artists ax\<rparr> = ax"
proof (induction vs arbitrary: index ax)
  case Nil
  then show ?case by simp
next
  case (Cons v vs)
  show ?case
  proof (cases "draw_one pc lbls kws index v ax")
    case (Inl err)
    with Cons.prems show ?thesis by simp
  next
    case (Inr ax1)
    then obtain a where ax1: "ax1 = draw a ax" using draw_one_frame by blast
    from Cons.prems Inr have "draw_series pc lbls kws (Suc index) vs ax1 = Returned ax'"
      by simp
    from Cons.IH [OF this] have "ax'\<lparr>artists := artists ax1\<rparr> = ax1" .
    then have "(ax'\<lparr>artists := artists ax1\<rparr>)\<lparr>artists := artists ax\<rparr>
        = ax1\<lparr>artists := artists ax\<rparr>" by simp
    then show ?thesis using ax1 by (simp add: draw_def)
  qed
qed

lemma inverted_decorate_plain:
  "xinverted (decorate (cfg\<lparr>invert := []\<rparr>) ax) = xinverted ax"
  "yinverted (decorate (cfg\<lparr>invert := []\<rparr>) ax) = yinverted ax"
  by (simp_all add: decorate_def Let_def set_axis_def set_legend_def cong: if_cong)

lemma fold_invert_axis:
  "fold invert_axis axes ax =
     ax\<lparr>xinverted := (xinverted ax \<noteq> odd (length (filter (\<lambda>a. a = ''x'') axes))),
        yinverted := (yinverted ax \<noteq> odd (length (filter (\<lambda>a. a = ''y'') axes)))\<rparr>"
proof (induction axes arbitrary: ax)
  case Nil
  show ?case by simp
next
  case (Cons a axes)
  let ?nx = "length (filter (\<lambda>a. a = ''x'') axes)"
  let ?ny = "length (filter (\<lambda>a. a = ''y'') axes)"
  have "fold invert_axis (a # axes) ax = fold invert_axis axes (invert_axis a ax)"
    by simp
  also have "\<dots> = (invert_axis a ax)
      \<lparr>xinverted := (xinverted (invert_axis a ax) \<noteq> odd ?nx),
       yinverted := (yinverted (invert_axis a ax) \<noteq> odd ?ny)\<rparr>"
    by (rule Cons.IH)
  also have "\<dots> = ax
      \<lparr>xinverted := (xinverted ax \<noteq> odd (length (filter (\<lambda>a. a = ''x'') (a # axes)))),
       yinverted := (yinverted ax \<noteq> odd (length (filter (\<lambda>a. a = ''y'') (a # axes))))\<rparr>"
    by (cases "a = ''x''"; cases "a = ''y''") (auto simp: invert_axis_def)
  finally show ?case .
qed

lemma decorate_fields:
  "artists (decorate cfg ax) = artists ax"
  "ax_title (decorate cfg ax) = title cfg"
  "ax_xlabel (decorate cfg ax) = x_label cfg"
  "ax_ylabel (decorate cfg ax) = y_label cfg"
  "ax_grid (decorate cfg ax) = grid cfg"
  "ax_tick_pad (decorate cfg ax) = Some 7"
  "ax_xlim (decorate cfg ax) = (if truthy (xlims cfg) then xlims cfg else ax_xlim ax)"
  "ax_ylim (decorate cfg ax) = (if truthy (ylims cfg) then ylims cfg else ax_ylim ax)"
  "xinverted (decorate cfg ax) =
     (xinverted ax \<noteq> odd (length (filter (\<lambda>a. a = ''x'') (invert cfg))))"
  "yinverted (decorate cfg ax) =
     (yinverted ax \<noteq> odd (length (filter (\<lambda>a. a = ''y'') (invert cfg))))"
  "xformatter (decorate cfg ax) =
     (case formatfuncx cfg of None \<Rightarrow> xformatter ax | Some g \<Rightarrow> Some g)"
  "yformatter (decorate cfg ax) =
     (case formatfuncy cfg of None \<Rightarrow> yformatter ax | Some g \<Rightarrow> Some g)"
  "map_option leg_handles (ax_legend (decorate cfg ax)) =
     (if truthy (labels cfg)
      then Some (map (\<lambda>l. (l, Some label_linewidth)) (legend_labels (artists ax)))
      else map_option leg_handles (ax_legend ax))"
  by (simp_all add: decorate_def Let_def fold_invert_axis set_formatters_def set_legend_def
      set_axis_def comp_def split: option.splits)

lemma rcParams_plot_any:
  "rcParams (snd (final (plot_any cfg plt))) =
     (rcParams plt)(''lines.linewidth'' \<mapsto> linewidth cfg, ''font.size'' \<mapsto> PyInt fontsize)"
  by (simp add: plot_any_def Let_def subplots_def put_axes_def savefig_def close_fig_def
      split: outcome.splits list.splits)

section \<open>The orchestrator: results\<close>

text \<open>
  Claim C3. For every valid series collection of length n, \<^verbatim>\<open>plot_any\<close> invokes the
  render strategy exactly n times, once per series and in order, and the colour passed
  for the series at index i is entry \<open>i mod 10\<close> of the palette of ten; series 0 and
  series 10 get the same colour.

  Valid: the plot kind is known, every series has its x and y entries, the keyword
  options bind, and labels, if given, are not fewer than the series. Each invocation
  of a strategy adds one artist to the axes, so the artists of the final axes are the
  invocations: there are n of them, the one at position i has the data of series i and
  the colour \<open>colorcycle ! (i mod 10)\<close>.
\<close>

theorem plot_any_draws_every_series:
  fixes cfg :: "('v, 'f) config"
  assumes "drawable cfg" and "labels_cover cfg"
  shows "\<exists>ax s. plot_any cfg plt = Returned (ax, s)
           \<and> length (artists ax) = length (vals cfg)
           \<and> (\<forall>i<length (vals cfg).
                 artist_xy (artists ax ! i) = (vals cfg ! i ! 0, vals cfg ! i ! 1)
                 \<and> artist_color (artists ax ! i) = VStr (colorcycle ! (i mod 10)))
           \<and> length colorcycle = 10
           \<and> (10 < length (vals cfg) \<longrightarrow>
                artist_color (artists ax ! 0) = artist_color (artists ax ! 10))"
proof -
  from plot_any_valid_run [OF assms, of plt]
  obtain ax s where ret: "plot_any cfg plt = Returned (ax, s)"
    and count: "length (artists ax) = length (vals cfg)"
    and each: "\<forall>i<length (vals cfg).
                 artist_xy (artists ax ! i) = (vals cfg ! i ! 0, vals cfg ! i ! 1)
                 \<and> artist_color (artists ax ! i) = VStr (colorcycle ! (i mod 10))"
    by blast
  have same: "10 < length (vals cfg) \<longrightarrow>
                artist_color (artists ax ! 0) = artist_color (artists ax ! 10)"
  proof
    assume n: "10 < length (vals cfg)"
    then have "0 < length (vals cfg)" by linarith
    with each n have "artist_color (artists ax ! 0) = VStr (colorcycle ! (0 mod 10))"
      and "artist_color (artists ax ! 10) = VStr (colorcycle ! (10 mod 10))"
      by blast+
    then show "artist_color (artists ax ! 0) = artist_color (artists ax ! 10)" by simp
  qed
  from ret count each same length_colorcycle show ?thesis by blast
qed

text \<open>
  The theorem at eleven series with the default options: eleven artists, the first
  and the eleventh in \<^verbatim>\<open>C0\<close>.
\<close>

theorem plot_any_draws_every_series_witness:
  "drawable (defaults eleven_series :: (int list, unit) config)
   \<and> labels_cover (defaults eleven_series :: (int list, unit) config)
   \<and> (\<exists>ax s. plot_any (defaults eleven_series :: (int list, unit) config) fresh = Returned (ax, s)
         \<and> length (artists ax) = 11
         \<and> artist_color (artists ax ! 0) = VStr ''C0''
         \<and> artist_color (artists ax ! 10) = VStr ''C0''
         \<and> artist_color (artists ax ! 3) = VStr ''C3'')"
proof -
  let ?c = "defaults eleven_series :: (int list, unit) config"
  have d: "drawable ?c"
    by (simp add: drawable_def defaults_def eleven_series_def truthy_def parameters_def
        accepts_def)
  have l: "labels_cover ?c"
    by (simp add: labels_cover_def defaults_def)
  have n: "length (vals ?c) = 11"
    by (simp add: defaults_def eleven_series_def)
  from plot_any_draws_every_series [OF d l, of fresh]
  obtain ax s where ret: "plot_any ?c fresh = Returned (ax, s)"
    and len: "length (artists ax) = length (vals ?c)"
    and each: "\<forall>i<length (vals ?c).
                 artist_xy (artists ax ! i) = (vals ?c ! i ! 0, vals ?c ! i ! 1)
                 \<and> artist_color (artists ax ! i) = VStr (colorcycle ! (i mod 10))"
    by blast
  from each n have "artist_color (artists ax ! 0) = VStr (colorcycle ! (0 mod 10))"
    and "artist_color (artists ax ! 10) = VStr (colorcycle ! (10 mod 10))"
    and "artist_color (artists ax ! 3) = VStr (colorcycle ! (3 mod 10))"
    by simp_all
  then have "artist_color (artists ax ! 0) = VStr ''C0''"
    and "artist_color (artists ax ! 10) = VStr ''C0''"
    and "artist_color (artists ax ! 3) = VStr ''C3''"
    by (simp_all add: colorcycle_def)
  with ret len n d l show ?thesis by auto
qed

text \<open>
  Claim C4, as stated: whenever the labels differ in number from the series,
  \<^verbatim>\<open>plot_any\<close> signals a label-count error, and the error comes from the legend step.
  With three labels for two series no exception escapes: the loop reads
  \<^verbatim>\<open>labels[index]\<close> for the two series only, and the legend step checks nothing.
\<close>

theorem surplus_labels_no_error:
  "labels surplus_labels_call = Some [''a'', ''b'', ''c'']
   \<and> length (vals surplus_labels_call) = 2
   \<and> raised (plot_any surplus_labels_call fresh) = None"
proof -
  have d: "drawable surplus_labels_call"
    unfolding surplus_labels_call_def by (rule drawable_two_series)
  have c: "labels_cover surplus_labels_call"
    by (simp add: labels_cover_def surplus_labels_call_def defaults_def two_series_def)
  from plot_any_valid_run [OF d c, of fresh]
  obtain ax s where "plot_any surplus_labels_call fresh = Returned (ax, s)" by blast
  then show ?thesis
    by (simp add: surplus_labels_call_def defaults_def two_series_def)
qed

text \<open>
  Claim C4, amended. \<^verbatim>\<open>plot_any\<close> never compares the two lengths. For a call
  that is otherwise drawable and has a non-empty list of labels: if the labels are fewer
  than the series, IndexError escapes from the drawing loop (from
  \<^verbatim>\<open>labels[index]\<close>, not from the legend step) after exactly as many series were
  drawn as there are labels; if they are as many or more, the call returns with every
  series drawn and the surplus labels unused.
\<close>

theorem plot_any_label_count:
  fixes cfg :: "('v, 'f) config"
  assumes "drawable cfg" and "labels cfg = Some ls" and "ls \<noteq> []"
  shows "\<exists>ax s. plot_any cfg plt =
                  (if length ls < length (vals cfg) then Raised IndexError (ax, s)
                   else Returned (ax, s))
           \<and> length (artists ax) = min (length ls) (length (vals cfg))"
proof -
  let ?new = "new_axes :: ('v, 'f) axes"
  from assms(2,3) have t: "truthy (labels cfg)" by (simp add: truthy_def)
  then have lbls: "(if truthy (labels cfg) then labels cfg else None) = Some ls"
    using assms(2) by simp
  note loop = drawable_loop [OF assms(1), unfolded lbls]
  show ?thesis
  proof (cases "length ls < length (vals cfg)")
    case True
    from loop(2) have fit: "accepts (parameters (plotcase cfg))
        ((''color'', VNone) # (''label'', VNone) # kwargs cfg)" by simp
    from True have "length ls < 0 + length (vals cfg)" by simp
    from draw_series_short [OF loop(1) fit loop(3) _ this, of ?new]
    obtain as where run: "draw_series (plotcase cfg) (Some ls) (kwargs cfg) 0 (vals cfg) ?new =
          Raised IndexError (?new\<lparr>artists := artists ?new @ as\<rparr>)"
      and len: "length as = length ls - 0" by auto
    let ?ax = "?new\<lparr>artists := artists ?new @ as\<rparr>"
    from plot_any_raised [of cfg IndexError ?ax plt] run lbls
    obtain s where "plot_any cfg plt = Raised IndexError (?ax, s)" by auto
    moreover have "length (artists ?ax) = min (length ls) (length (vals cfg))"
      using len True by (simp add: new_axes_def)
    ultimately show ?thesis using True by auto
  next
    case False
    then have cover: "labels_cover cfg" using assms(2) by (simp add: labels_cover_def)
    from plot_any_valid_run [OF assms(1) cover, of plt]
    obtain ax s where "plot_any cfg plt = Returned (ax, s)"
      and "length (artists ax) = length (vals cfg)" by blast
    with False show ?thesis by auto
  qed
qed

text \<open>
  The theorem at two series with one label (IndexError after one series) and with three
  labels (both series drawn).
\<close>

theorem plot_any_label_count_witness:
  "drawable short_labels_call \<and> labels short_labels_call = Some [''a'']
   \<and> length (vals short_labels_call) = 2
   \<and> (\<exists>ax s. plot_any short_labels_call fresh = Raised IndexError (ax, s)
         \<and> length (artists ax) = 1)
   \<and> drawable surplus_labels_call \<and> labels surplus_labels_call = Some [''a'', ''b'', ''c'']
   \<and> (\<exists>ax s. plot_any surplus_labels_call fresh = Returned (ax, s)
         \<and> length (artists ax) = 2)"
proof -
  have d1: "drawable short_labels_call"
    unfolding short_labels_call_def by (rule drawable_two_series)
  have l1: "labels short_labels_call = Some [''a'']"
    by (simp add: short_labels_call_def)
  have n1: "length (vals short_labels_call) = 2"
    by (simp add: short_labels_call_def defaults_def two_series_def)
  have d2: "drawable surplus_labels_call"
    unfolding surplus_labels_call_def by (rule drawable_two_series)
  have l2: "labels surplus_labels_call = Some [''a'', ''b'', ''c'']"
    by (simp add: surplus_labels_call_def)
  have n2: "length (vals surplus_labels_call) = 2"
    by (simp add: surplus_labels_call_def defaults_def two_series_def)
  from plot_any_label_count [OF d1 l1, of fresh] n1
  have r1: "\<exists>ax s. plot_any short_labels_call fresh = Raised IndexError (ax, s)
         \<and> length (artists ax) = 1" by auto
  from plot_any_label_count [OF d2 l2, of fresh] n2
  have r2: "\<exists>ax s. plot_any surplus_labels_call fresh = Returned (ax, s)
         \<and> length (artists ax) = 2" by auto
  from d1 l1 n1 r1 d2 l2 r2 show ?thesis by blast
qed

text \<open>
  Claim C5, as stated: whenever \<^verbatim>\<open>plotcase\<close> is none of lines, points and vlines,
  \<^verbatim>\<open>plot_any\<close> signals an unknown-plot-kind error. The lookup
  \<^verbatim>\<open>exe_func[plotcase]\<close> stands inside the loop, so with no series it is never
  reached: the call with the kind \<^verbatim>\<open>bars\<close> and an empty \<^verbatim>\<open>vals\<close> returns.
\<close>

theorem unknown_kind_no_series_no_error:
  "plotcase unknown_kind_empty_call = ''bars''
   \<and> exe_func ''bars''
       = (None :: ((int list, unit) axes \<Rightarrow> int list \<Rightarrow> int list \<Rightarrow> kwdict
                   \<Rightarrow> pyerror + (int list, unit) axes) option)
   \<and> raised (plot_any unknown_kind_empty_call fresh) = None"
proof -
  have "vals unknown_kind_empty_call = []"
    by (simp add: unknown_kind_empty_call_def defaults_def)
  from plot_any_no_series [OF this, of fresh]
  obtain ax s where "plot_any unknown_kind_empty_call fresh = Returned (ax, s)" by blast
  then show ?thesis
    by (simp add: unknown_kind_empty_call_def exe_func_def)
qed

text \<open>
  Claim C5, amended. Whenever \<^verbatim>\<open>plotcase\<close> is none of lines, points and vlines and
  there is at least one series, KeyError for that \<^verbatim>\<open>plotcase\<close> escapes the call and
  no series has been drawn: the axes of the figure, which stays open, hold no artist, and
  nothing was saved.
\<close>

theorem plot_any_unknown_kind:
  fixes cfg :: "('v, 'f) config"
  assumes "plotcase cfg \<noteq> ''lines''" and "plotcase cfg \<noteq> ''points''"
    and "plotcase cfg \<noteq> ''vlines''" and "vals cfg \<noteq> []"
  shows "\<exists>ax s. plot_any cfg plt = Raised (KeyError (plotcase cfg)) (ax, s)
           \<and> artists ax = []
           \<and> figures s = figures plt @ [(new_fignum (figures plt), ax)]
           \<and> saved s = saved plt"
proof -
  let ?new = "new_axes :: ('v, 'f) axes"
  let ?lbls = "if truthy (labels cfg) then labels cfg else None"
  from assms(4) obtain v vs where vs: "vals cfg = v # vs" by (cases "vals cfg") auto
  have "exe_func (plotcase cfg) =
      (None :: (('v, 'f) axes \<Rightarrow> 'v \<Rightarrow> 'v \<Rightarrow> kwdict \<Rightarrow> pyerror + ('v, 'f) axes) option)"
    using assms(1-3) by (rule exe_func_unknown)
  then have "draw_one (plotcase cfg) ?lbls (kwargs cfg) 0 v ?new = Inl (KeyError (plotcase cfg))"
    by (simp add: draw_one_def)
  then have "draw_series (plotcase cfg) ?lbls (kwargs cfg) 0 (vals cfg) ?new =
      Raised (KeyError (plotcase cfg)) ?new"
    using vs by simp
  from plot_any_raised [OF this, of plt]
  obtain s where "plot_any cfg plt = Raised (KeyError (plotcase cfg)) (?new, s)"
    and "figures s = figures plt @ [(new_fignum (figures plt), ?new)]"
    and "saved s = saved plt" by blast
  moreover have "artists ?new = []" by (simp add: new_axes_def)
  ultimately show ?thesis by blast
qed

text \<open>
  The theorem at two series with the kind \<^verbatim>\<open>bars\<close>, from a fresh state.
\<close>

theorem plot_any_unknown_kind_witness:
  "plotcase unknown_kind_call = ''bars'' \<and> length (vals unknown_kind_call) = 2
   \<and> (\<exists>ax s. plot_any unknown_kind_call fresh = Raised (KeyError ''bars'') (ax, s)
         \<and> artists ax = [] \<and> figures s = [(1, ax)] \<and> saved s = [])"
proof -
  have p: "plotcase unknown_kind_call = ''bars''"
    by (simp add: unknown_kind_call_def)
  have n: "length (vals unknown_kind_call) = 2"
    by (simp add: unknown_kind_call_def defaults_def two_series_def)
  then have ne: "vals unknown_kind_call \<noteq> []" by auto
  have k: "plotcase unknown_kind_call \<noteq> ''lines''" "plotcase unknown_kind_call \<noteq> ''points''"
    "plotcase unknown_kind_call \<noteq> ''vlines''"
    by (simp_all add: p)
  have e: "saved (fresh :: (int list, unit) pyplot) = []"
    "figures (fresh :: (int list, unit) pyplot) = []"
    "new_fignum ([] :: (nat \<times> (int list, unit) axes) list) = 1"
    by (simp_all add: fresh_def new_fignum_def)
  from plot_any_unknown_kind [OF k ne, of fresh] p e
  have "\<exists>ax s. plot_any unknown_kind_call fresh = Raised (KeyError ''bars'') (ax, s)
         \<and> artists ax = [] \<and> figures s = [(1, ax)] \<and> saved s = []"
    by auto
  with p n show ?thesis by blast
qed

text \<open>
  Claim C6. For every plot kind, lines, points and vlines, and every series index i,
  when labels are given the chosen strategy passes label i on to the draw primitive, so
  that each drawn series carries its label.

  \<^verbatim>\<open>lines\<close> and \<^verbatim>\<open>points\<close> pass \<^verbatim>\<open>label=label\<close> on; \<^verbatim>\<open>vlines\<close> takes
  the parameter and calls \<^verbatim>\<open>ax.vlines(x, origin, y, colors=color)\<close> without it. The
  theorem evaluates the call on one series with the label \<^verbatim>\<open>a\<close>: as vlines the one
  artist has no label and the legend has no entry; as lines the artist has the label
  and the legend shows it.
\<close>

theorem vlines_drops_label:
  "raised (plot_any vlines_labelled_call fresh) = None
   \<and> artists (fst (final (plot_any vlines_labelled_call fresh)))
       = [AxVlines [1, 2, 3] (VNum (PyInt 0)) [1, 2, 3] (VStr ''C0'')]
   \<and> map artist_label (artists (fst (final (plot_any vlines_labelled_call fresh)))) = [VNone]
   \<and> map_option leg_handles (ax_legend (fst (final (plot_any vlines_labelled_call fresh))))
       = Some []
   \<and> map artist_label (artists (fst (final (plot_any lines_labelled_call fresh))))
       = [VStr ''a'']
   \<and> map_option leg_handles (ax_legend (fst (final (plot_any lines_labelled_call fresh))))
       = Some [(''a'', Some label_linewidth)]"
proof -
  let ?new = "new_axes :: (int list, unit) axes"
  let ?v = "AxVlines [1, 2, 3] (VNum (PyInt 0)) [1, 2, 3] (VStr ''C0'') :: int list artist"
  let ?l = "AxPlot [1, 2, 3] [1, 2, 3] (VStr ''C0'') (VStr ''a'') :: int list artist"
  have tv: "truthy (labels vlines_labelled_call)" and tl: "truthy (labels lines_labelled_call)"
    by (simp_all add: vlines_labelled_call_def lines_labelled_call_def truthy_def)
  have "draw_series ''vlines'' (Some [''a'']) [] 0 one_series ?new = Returned (draw ?v ?new)"
    by (simp add: draw_one_def exe_func_def item_def colorcycle_def vlines_def accepts_def
        kwarg_def one_series_def)
  then have runv: "draw_series (plotcase vlines_labelled_call)
      (if truthy (labels vlines_labelled_call) then labels vlines_labelled_call else None)
      (kwargs vlines_labelled_call) 0 (vals vlines_labelled_call) ?new = Returned (draw ?v ?new)"
    using tv by (simp add: vlines_labelled_call_def defaults_def)
  have "draw_series ''lines'' (Some [''a'']) [] 0 one_series ?new = Returned (draw ?l ?new)"
    by (simp add: draw_one_def exe_func_def item_def colorcycle_def lines_def accepts_def
        kwarg_def one_series_def)
  then have runl: "draw_series (plotcase lines_labelled_call)
      (if truthy (labels lines_labelled_call) then labels lines_labelled_call else None)
      (kwargs lines_labelled_call) 0 (vals lines_labelled_call) ?new = Returned (draw ?l ?new)"
    using tl by (simp add: lines_labelled_call_def defaults_def)
  from plot_any_returned [OF runv, of fresh]
  obtain sv where v: "plot_any vlines_labelled_call fresh =
      Returned (decorate vlines_labelled_call (draw ?v ?new), sv)" by blast
  from plot_any_returned [OF runl, of fresh]
  obtain sl where l: "plot_any lines_labelled_call fresh =
      Returned (decorate lines_labelled_call (draw ?l ?new), sl)" by blast
  have av: "artists (draw ?v ?new) = [?v]" and al: "artists (draw ?l ?new) = [?l]"
    by (simp_all add: new_axes_def)
  have legv: "map_option leg_handles (ax_legend (decorate vlines_labelled_call (draw ?v ?new)))
      = Some []"
    using tv av
    by (simp add: decorate_def Let_def set_legend_def set_formatters_def legend_labels_def
        vlines_labelled_call_def defaults_def)
  have legl: "map_option leg_handles (ax_legend (decorate lines_labelled_call (draw ?l ?new)))
      = Some [(''a'', Some label_linewidth)]"
    using tl al
    by (simp add: decorate_def Let_def set_legend_def set_formatters_def legend_labels_def
        lines_labelled_call_def defaults_def)
  show ?thesis
    using av al legv legl by (simp add: v l)
qed

text \<open>
  Claim C7. Calling \<^verbatim>\<open>plot_any\<close> with \<^verbatim>\<open>invert=['x','y']\<close> reverses both axis
  directions relative to calling it with \<^verbatim>\<open>invert=[]\<close>, and inverting an axis twice
  (\<^verbatim>\<open>invert=['x','x']\<close>) restores its direction.

  If the call with \<^verbatim>\<open>invert=[]\<close> returns, neither axis is inverted in its axes; the
  call with \<^verbatim>\<open>['x','y']\<close> returns the same axes with both axes inverted; the calls
  with \<^verbatim>\<open>['x','x']\<close>, \<^verbatim>\<open>['y','y']\<close> and \<^verbatim>\<open>['x','y','x','y']\<close> return the
  same axes and the same pyplot state as the call with \<^verbatim>\<open>[]\<close>.
\<close>

theorem plot_any_invert:
  fixes cfg :: "('v, 'f) config"
  assumes "plot_any (cfg\<lparr>invert := []\<rparr>) plt = Returned (ax0, s0)"
  shows "\<not> xinverted ax0 \<and> \<not> yinverted ax0
         \<and> (\<exists>s. plot_any (cfg\<lparr>invert := [''x'', ''y'']\<rparr>) plt =
               Returned (ax0\<lparr>xinverted := True, yinverted := True\<rparr>, s))
         \<and> plot_any (cfg\<lparr>invert := [''x'', ''x'']\<rparr>) plt = Returned (ax0, s0)
         \<and> plot_any (cfg\<lparr>invert := [''y'', ''y'']\<rparr>) plt = Returned (ax0, s0)
         \<and> plot_any (cfg\<lparr>invert := [''x'', ''y'', ''x'', ''y'']\<rparr>) plt = Returned (ax0, s0)"
proof -
  let ?new = "new_axes :: ('v, 'f) axes"
  let ?loop = "draw_series (plotcase cfg) (if truthy (labels cfg) then labels cfg else None)
                 (kwargs cfg) 0 (vals cfg) ?new"
  from assms obtain ax where run: "?loop = Returned ax"
    by (cases ?loop) (simp_all add: plot_any_def Let_def cong: if_cong)
  have run0: "draw_series (plotcase (cfg\<lparr>invert := []\<rparr>))
      (if truthy (labels (cfg\<lparr>invert := []\<rparr>)) then labels (cfg\<lparr>invert := []\<rparr>) else None)
      (kwargs (cfg\<lparr>invert := []\<rparr>)) 0 (vals (cfg\<lparr>invert := []\<rparr>)) ?new = Returned ax"
    using run by (simp cong: if_cong)
  from plot_any_returned [OF run0, of plt] assms
  have ax0: "ax0 = decorate (cfg\<lparr>invert := []\<rparr>) ax" by auto
  from draw_series_frame [OF run] have "ax\<lparr>artists := artists ?new\<rparr> = ?new" .
  then have "xinverted (ax\<lparr>artists := artists ?new\<rparr>) = xinverted ?new"
    and "yinverted (ax\<lparr>artists := artists ?new\<rparr>) = yinverted ?new" by simp_all
  then have plain: "\<not> xinverted ax0" "\<not> yinverted ax0"
    using ax0 by (simp_all add: inverted_decorate_plain new_axes_def)
  have runxy: "draw_series (plotcase (cfg\<lparr>invert := [''x'', ''y'']\<rparr>))
      (if truthy (labels (cfg\<lparr>invert := [''x'', ''y'']\<rparr>))
       then labels (cfg\<lparr>invert := [''x'', ''y'']\<rparr>) else None)
      (kwargs (cfg\<lparr>invert := [''x'', ''y'']\<rparr>)) 0 (vals (cfg\<lparr>invert := [''x'', ''y'']\<rparr>)) ?new
      = Returned ax"
    using run by (simp cong: if_cong)
  from plot_any_returned [OF runxy, of plt]
  obtain s where "plot_any (cfg\<lparr>invert := [''x'', ''y'']\<rparr>) plt =
      Returned (decorate (cfg\<lparr>invert := [''x'', ''y'']\<rparr>) ax, s)" by blast
  then have xy: "\<exists>s. plot_any (cfg\<lparr>invert := [''x'', ''y'']\<rparr>) plt =
      Returned (ax0\<lparr>xinverted := True, yinverted := True\<rparr>, s)"
    using ax0 plain by (simp add: decorate_invert_xy)
  have xx: "plot_any (cfg\<lparr>invert := [''x'', ''x'']\<rparr>) plt = Returned (ax0, s0)"
    using plot_any_invert_twice [where cfg = cfg and i = "[]" and a = "''x''" and plt = plt] assms by simp
  have yy: "plot_any (cfg\<lparr>invert := [''y'', ''y'']\<rparr>) plt = Returned (ax0, s0)"
    using plot_any_invert_twice [where cfg = cfg and i = "[]" and a = "''y''" and plt = plt] assms by simp
  have "fold invert_axis [''x'', ''y'', ''x'', ''y''] a = a" for a :: "('v, 'f) axes"
    by (simp add: invert_axis_def)
  then have "decorate (cfg\<lparr>invert := [''x'', ''y'', ''x'', ''y'']\<rparr>) a
      = decorate (cfg\<lparr>invert := []\<rparr>) a" for a :: "('v, 'f) axes"
    by (simp add: decorate_def Let_def del: fold_simps cong: if_cong)
  then have "plot_any (cfg\<lparr>invert := [''x'', ''y'', ''x'', ''y'']\<rparr>) plt
      = plot_any (cfg\<lparr>invert := []\<rparr>) plt"
    by (simp add: plot_any_def Let_def cong: if_cong outcome.case_cong)
  with assms have xyxy: "plot_any (cfg\<lparr>invert := [''x'', ''y'', ''x'', ''y'']\<rparr>) plt
      = Returned (ax0, s0)" by simp
  from plain xy xx yy xyxy show ?thesis by blast
qed

text \<open>
  The theorem at two series with the default options, from a fresh state.
\<close>

theorem plot_any_invert_witness:
  "\<exists>ax0 s0. plot_any ((defaults two_series :: (int list, unit) config)\<lparr>invert := []\<rparr>) fresh
               = Returned (ax0, s0)
     \<and> xinverted ax0 = False \<and> yinverted ax0 = False
     \<and> (\<exists>s. plot_any ((defaults two_series :: (int list, unit) config)\<lparr>invert := [''x'', ''y'']\<rparr>)
               fresh = Returned (ax0\<lparr>xinverted := True, yinverted := True\<rparr>, s))
     \<and> plot_any ((defaults two_series :: (int list, unit) config)\<lparr>invert := [''x'', ''x'']\<rparr>)
         fresh = Returned (ax0, s0)"
proof -
  let ?c = "defaults two_series :: (int list, unit) config"
  have d: "drawable (?c\<lparr>invert := []\<rparr>)"
    by (simp add: drawable_def defaults_def two_series_def truthy_def parameters_def accepts_def)
  have c: "labels_cover (?c\<lparr>invert := []\<rparr>)"
    by (simp add: labels_cover_def defaults_def)
  from plot_any_valid_run [OF d c, of fresh]
  obtain ax0 s0 where r: "plot_any (?c\<lparr>invert := []\<rparr>) fresh = Returned (ax0, s0)" by blast
  from plot_any_invert [OF r] r show ?thesis by blast
qed

text \<open>
  Claim C8. Calling \<^verbatim>\<open>plot_any\<close> with \<^verbatim>\<open>save=True\<close> and \<^verbatim>\<open>show=False\<close>
  writes an image file at \<^verbatim>\<open>savename\<close> (default \<^verbatim>\<open>plot.png\<close>) with tight
  bounding-box cropping, and closes the figure, so that no open figure remains from the
  call.

  For a call that can draw every series: it returns, the files written are those from
  before and then the picture of the final axes at \<^verbatim>\<open>savename\<close> with
  \<^verbatim>\<open>bbox_inches='tight'\<close>, and the open figures are exactly those from before the
  call: the figure the call made is closed. The default \<^verbatim>\<open>savename\<close> is
  \<^verbatim>\<open>plot.png\<close>.
\<close>

theorem plot_any_save_and_close:
  fixes cfg :: "('v, 'f) config"
  assumes "drawable cfg" and "labels_cover cfg" and "save_flag cfg" and "\<not> show_flag cfg"
  shows "\<exists>ax s. plot_any cfg plt = Returned (ax, s)
           \<and> saved s = saved plt @ [(savename cfg, ''tight'', ax)]
           \<and> figures s = figures plt
           \<and> length (artists ax) = length (vals cfg)
           \<and> savename (defaults (vals cfg) :: ('v, 'f) config) = ''plot.png''"
proof -
  from plot_any_valid_run [OF assms(1,2), of plt]
  obtain ax s where "plot_any cfg plt = Returned (ax, s)"
    and "length (artists ax) = length (vals cfg)"
    and "figures s = figures plt
           @ (if show_flag cfg then [(new_fignum (figures plt), ax)] else [])"
    and "saved s = saved plt
           @ (if save_flag cfg then [(savename cfg, ''tight'', ax)] else [])"
    by blast
  moreover have "savename (defaults (vals cfg) :: ('v, 'f) config) = ''plot.png''"
    by (simp add: defaults_def)
  ultimately show ?thesis using assms(3,4) by auto
qed

text \<open>
  The theorem at two series from a fresh state: one file, \<^verbatim>\<open>plot.png\<close>, and no
  open figure.
\<close>

theorem plot_any_save_and_close_witness:
  "drawable save_call \<and> labels_cover save_call \<and> save_flag save_call
   \<and> \<not> show_flag save_call \<and> savename save_call = ''plot.png''
   \<and> (\<exists>ax s. plot_any save_call fresh = Returned (ax, s)
         \<and> saved s = [(''plot.png'', ''tight'', ax)] \<and> figures s = []
         \<and> length (artists ax) = 2)"
proof -
  have d: "drawable save_call"
    by (simp add: save_call_def drawable_def defaults_def two_series_def truthy_def
        parameters_def accepts_def)
  have c: "labels_cover save_call"
    by (simp add: labels_cover_def save_call_def defaults_def)
  have f: "save_flag save_call" "\<not> show_flag save_call" "savename save_call = ''plot.png''"
    "length (vals save_call) = 2"
    by (simp_all add: save_call_def defaults_def two_series_def)
  have e: "saved (fresh :: (int list, unit) pyplot) = []"
    "figures (fresh :: (int list, unit) pyplot) = []"
    by (simp_all add: fresh_def)
  from plot_any_save_and_close [OF d c f(1,2), of fresh] f(3,4) e
  have "\<exists>ax s. plot_any save_call fresh = Returned (ax, s)
         \<and> saved s = [(''plot.png'', ''tight'', ax)] \<and> figures s = []
         \<and> length (artists ax) = 2"
    by auto
  with d c f show ?thesis by blast
qed

text \<open>
  Claim C10. When \<^verbatim>\<open>plot_any\<close> is called with an empty series collection, the
  drawing loop makes no draw call and the call completes with no error, also when
  \<^verbatim>\<open>plotcase\<close> is none of lines, points and vlines: the chart is styled and
  empty.

  For every call with no series, whatever the plot kind, labels and keyword options:
  the call returns; the axes hold no artist; they carry the title, the axis labels,
  the grid setting, the tick padding 7, the limits that were given, an empty legend
  exactly when labels were given, each axis inverted as often as \<^verbatim>\<open>invert\<close> names
  it, and the tick formatters that were given; the rc parameters are set; the figure
  is open with these axes exactly when \<^verbatim>\<open>show\<close> is true, and the picture is saved
  exactly when \<^verbatim>\<open>save\<close> is true.
\<close>

theorem plot_any_empty_series:
  fixes cfg :: "('v, 'f) config"
  assumes "vals cfg = []"
  shows "\<exists>ax s. plot_any cfg plt = Returned (ax, s)
           \<and> artists ax = []
           \<and> ax_title ax = title cfg \<and> ax_xlabel ax = x_label cfg \<and> ax_ylabel ax = y_label cfg
           \<and> ax_grid ax = grid cfg \<and> ax_tick_pad ax = Some 7
           \<and> ax_xlim ax = (if truthy (xlims cfg) then xlims cfg else None)
           \<and> ax_ylim ax = (if truthy (ylims cfg) then ylims cfg else None)
           \<and> map_option leg_handles (ax_legend ax) = (if truthy (labels cfg) then Some [] else None)
           \<and> xinverted ax = odd (length (filter (\<lambda>a. a = ''x'') (invert cfg)))
           \<and> yinverted ax = odd (length (filter (\<lambda>a. a = ''y'') (invert cfg)))
           \<and> xformatter ax = formatfuncx cfg \<and> yformatter ax = formatfuncy cfg
           \<and> rcParams s = (rcParams plt)
                 (''lines.linewidth'' \<mapsto> linewidth cfg, ''font.size'' \<mapsto> PyInt fontsize)
           \<and> figures s = figures plt
                 @ (if show_flag cfg then [(new_fignum (figures plt), ax)] else [])
           \<and> saved s = saved plt
                 @ (if save_flag cfg then [(savename cfg, ''tight'', ax)] else [])"
proof -
  let ?new = "new_axes :: ('v, 'f) axes"
  let ?ax = "decorate cfg ?new"
  have "draw_series (plotcase cfg) (if truthy (labels cfg) then labels cfg else None)
          (kwargs cfg) 0 (vals cfg) ?new = Returned ?new"
    using assms by simp
  from plot_any_returned [OF this, of plt]
  obtain s where ret: "plot_any cfg plt = Returned (?ax, s)"
    and figs: "figures s = figures plt
                 @ (if show_flag cfg then [(new_fignum (figures plt), ?ax)] else [])"
    and sav: "saved s = saved plt
                 @ (if save_flag cfg then [(savename cfg, ''tight'', ?ax)] else [])"
    by blast
  from rcParams_plot_any [of cfg plt] ret
  have rc: "rcParams s = (rcParams plt)
      (''lines.linewidth'' \<mapsto> linewidth cfg, ''font.size'' \<mapsto> PyInt fontsize)" by simp
  have new: "artists ?new = []" "ax_xlim ?new = None" "ax_ylim ?new = None"
    "ax_legend ?new = None" "xinverted ?new = False" "yinverted ?new = False"
    "xformatter ?new = None" "yformatter ?new = None"
    by (simp_all add: new_axes_def)
  have a: "artists ?ax = []" "ax_title ?ax = title cfg" "ax_xlabel ?ax = x_label cfg"
    "ax_ylabel ?ax = y_label cfg" "ax_grid ?ax = grid cfg" "ax_tick_pad ?ax = Some 7"
    by (simp_all add: decorate_fields new)
  have b: "ax_xlim ?ax = (if truthy (xlims cfg) then xlims cfg else None)"
    "ax_ylim ?ax = (if truthy (ylims cfg) then ylims cfg else None)"
    "map_option leg_handles (ax_legend ?ax) = (if truthy (labels cfg) then Some [] else None)"
    by (simp_all add: decorate_fields new legend_labels_def)
  have c: "xinverted ?ax = odd (length (filter (\<lambda>a. a = ''x'') (invert cfg)))"
    "yinverted ?ax = odd (length (filter (\<lambda>a. a = ''y'') (invert cfg)))"
    "xformatter ?ax = formatfuncx cfg" "yformatter ?ax = formatfuncy cfg"
    by (simp_all add: decorate_fields new split: option.splits)
  from ret a b c rc figs sav show ?thesis by blast
qed

text \<open>
  The theorem at no series with the kind \<^verbatim>\<open>pie\<close>, one label, a title, an x
  label, the grid and the x axis inverted, from a fresh state.
\<close>

theorem plot_any_empty_series_witness:
  "vals empty_styled_call = [] \<and> plotcase empty_styled_call = ''pie''
   \<and> labels empty_styled_call = Some [''a'']
   \<and> (\<exists>ax s. plot_any empty_styled_call fresh = Returned (ax, s) \<and> artists ax = []
         \<and> ax_title ax = ''empty'' \<and> ax_xlabel ax = ''t'' \<and> ax_grid ax = True
         \<and> ax_tick_pad ax = Some 7
         \<and> map_option leg_handles (ax_legend ax) = Some []
         \<and> xinverted ax = True \<and> yinverted ax = False
         \<and> figures s = [(1, ax)] \<and> saved s = [])"
proof -
  have v: "vals empty_styled_call = []"
    by (simp add: empty_styled_call_def defaults_def)
  have f: "plotcase empty_styled_call = ''pie''" "labels empty_styled_call = Some [''a'']"
    "title empty_styled_call = ''empty''" "x_label empty_styled_call = ''t''"
    "grid empty_styled_call = True" "invert empty_styled_call = [''x'']"
    "show_flag empty_styled_call = True" "save_flag empty_styled_call = False"
    "truthy (labels empty_styled_call)"
    by (simp_all add: empty_styled_call_def defaults_def truthy_def)
  have e: "saved (fresh :: (int list, unit) pyplot) = []"
    "figures (fresh :: (int list, unit) pyplot) = []"
    "new_fignum ([] :: (nat \<times> (int list, unit) axes) list) = 1"
    by (simp_all add: fresh_def new_fignum_def)
  from plot_any_empty_series [OF v, of fresh]
  have "\<exists>ax s. plot_any empty_styled_call fresh = Returned (ax, s) \<and> artists ax = []
         \<and> ax_title ax = ''empty'' \<and> ax_xlabel ax = ''t'' \<and> ax_grid ax = True
         \<and> ax_tick_pad ax = Some 7
         \<and> map_option leg_handles (ax_legend ax) = Some []
         \<and> xinverted ax = True \<and> yinverted ax = False
         \<and> figures s = [(1, ax)] \<and> saved s = []"
    by (auto simp: f e truthy_def)
  with v f(1,2) show ?thesis by simp
qed

end
